theory Spec2Isabelle
  imports Complex_Main "HOL-Library.Word" "HOL-Library.Sublist" "HOL-Library.AList"
begin

section \<open>JavaScript strings\<close>

text \<open>
  A JavaScript string is a sequence of 16-bit code units. ASCII literals of \<^verbatim>\<open>App.tsx\<close>
  are written through \<open>ascii\<close>; the few CJK literals are given by their code units.
\<close>

type_synonym jstring = "16 word list"

definition ascii :: "string \<Rightarrow> jstring" where
  "ascii s = map of_char s"

text \<open>\<^verbatim>\<open>String(n)\<close> for a non-negative integer: its decimal digits.\<close>

fun dec :: "nat \<Rightarrow> jstring" where
  "dec n = (if n < 10 then [of_nat (48 + n)] else dec (n div 10) @ [of_nat (48 + n mod 10)])"

declare dec.simps [simp del]

text \<open>\<^verbatim>\<open>String(t)\<close> for an integer, as \<^verbatim>\<open>Date.now()\<close> returns one.\<close>

definition decInt :: "int \<Rightarrow> jstring" where
  "decInt t = (if t < 0 then ascii ''-'' @ dec (nat (- t)) else dec (nat t))"

text \<open>
  \<^verbatim>\<open>String.prototype.trim\<close> removes the code units of WhiteSpace and LineTerminator
  from both ends.
\<close>

definition isWhiteSpace :: "16 word \<Rightarrow> bool" where
  "isWhiteSpace c \<longleftrightarrow>
     c \<in> {0x9, 0xA, 0xB, 0xC, 0xD, 0x20, 0xA0, 0x1680, 0x2028, 0x2029, 0x202F, 0x205F,
          0x3000, 0xFEFF}
     \<or> (0x2000 \<le> c \<and> c \<le> 0x200A)"

definition trim :: "jstring \<Rightarrow> jstring" where
  "trim s = rev (dropWhile isWhiteSpace (rev (dropWhile isWhiteSpace s)))"

text \<open>
  \<^verbatim>\<open>text.replace(/```json|```/g, '')\<close>: scanning from the left, every match of the longer
  alternative, else of the shorter one, is deleted.
\<close>

definition fenceJson :: jstring where
  "fenceJson = ascii ''```json''"

definition fence :: jstring where
  "fence = ascii ''```''"

function stripFences :: "jstring \<Rightarrow> jstring" where
  "stripFences [] = []"
| "stripFences (c # cs) =
     (if prefix fenceJson (c # cs) then stripFences (drop 7 (c # cs))
      else if prefix fence (c # cs) then stripFences (drop 3 (c # cs))
      else c # stripFences cs)"
  by pat_completeness auto
termination
  by (relation "measure length") auto

definition join :: "jstring \<Rightarrow> jstring list \<Rightarrow> jstring" where
  "join sep xs = (case xs of [] \<Rightarrow> [] | y # ys \<Rightarrow> y @ concat (map (\<lambda>z. sep @ z) ys))"

section \<open>Values returned by \<^verbatim>\<open>JSON.parse\<close>\<close>

text \<open>
  A number is a double; only whether it is zero or NaN is observed by the program.
  An object is its list of own properties in insertion order, looked up by the first entry
  for a key. An array carries its elements and the named properties that an assignment
  such as \<^verbatim>\<open>json.hashtags = []\<close> can add to it.
\<close>

datatype jsnum = Finite rat | PlusInfinity | MinusInfinity | NaN

datatype json =
    JNull
  | JBool bool
  | JNum jsnum
  | JStr jstring
  | JArr "json list" "(jstring \<times> json) list"
  | JObj "(jstring \<times> json) list"

datatype error =
    MissingApiKey
  | BackendError
  | SyntaxError
  | TypeError
  | NoContentGenerated
  | NoImageGenerated

datatype 'a outcome = Rejects | Resolves 'a

text \<open>Truthiness: \<^verbatim>\<open>!v\<close> holds of undefined (here \<open>None\<close>), null, false, 0, NaN and "".\<close>

fun truthy :: "json \<Rightarrow> bool" where
  "truthy JNull = False"
| "truthy (JBool b) = b"
| "truthy (JNum n) = (n \<noteq> Finite 0 \<and> n \<noteq> NaN)"
| "truthy (JStr s) = (s \<noteq> [])"
| "truthy (JArr xs ps) = True"
| "truthy (JObj ps) = True"

definition truthyOpt :: "json option \<Rightarrow> bool" where
  "truthyOpt v = (case v of None \<Rightarrow> False | Some x \<Rightarrow> truthy x)"

text \<open>
  Reading a property \<^verbatim>\<open>v.k\<close>. The program reads only the names \<^verbatim>\<open>results\<close>, \<^verbatim>\<open>items\<close>,
  \<^verbatim>\<open>data\<close>, \<^verbatim>\<open>hashtags\<close>, \<^verbatim>\<open>comparisonTable\<close>, \<^verbatim>\<open>rows\<close> and \<^verbatim>\<open>headers\<close>; none of them is an
  array index or defined by a built-in prototype, so a primitive yields undefined and an
  array only what was assigned to it. Reading from null throws.
\<close>

fun getProp :: "json \<Rightarrow> jstring \<Rightarrow> error + json option" where
  "getProp JNull k = Inl TypeError"
| "getProp (JObj ps) k = Inr (map_of ps k)"
| "getProp (JArr xs ps) k = Inr (map_of ps k)"
| "getProp v k = Inr None"

text \<open>
  Assigning a property \<^verbatim>\<open>v.k = x\<close>. The file is an ES module, hence strict code: the
  assignment to a primitive throws. An existing key keeps its place, a new one is appended.
\<close>

fun setProp :: "json \<Rightarrow> jstring \<Rightarrow> json \<Rightarrow> error + json" where
  "setProp (JObj ps) k x = Inr (JObj (AList.update k x ps))"
| "setProp (JArr xs ps) k x = Inr (JArr xs (AList.update k x ps))"
| "setProp v k x = Inl TypeError"

text \<open>
  The own enumerable properties that the spread \<^verbatim>\<open>{...r}\<close> copies: none of a primitive
  other than a string, the indexed code units of a string, the indexed elements of an array
  followed by its named properties, the properties of an object.
\<close>

fun ownEnumerable :: "json \<Rightarrow> (jstring \<times> json) list" where
  "ownEnumerable (JStr s) = zip (map dec [0..<length s]) (map (\<lambda>c. JStr [c]) s)"
| "ownEnumerable (JArr xs ps) = zip (map dec [0..<length xs]) xs @ ps"
| "ownEnumerable (JObj ps) = ps"
| "ownEnumerable v = []"

section \<open>\<^verbatim>\<open>searchMedicalArticles\<close>\<close>

definition getAiClient :: "jstring option \<Rightarrow> error + unit" where
  "getAiClient apiKey =
     (case apiKey of None \<Rightarrow> Inl MissingApiKey
      | Some k \<Rightarrow> if k = [] then Inl MissingApiKey else Inr ())"

definition isArray :: "json option \<Rightarrow> bool" where
  "isArray v = (case v of Some (JArr xs ps) \<Rightarrow> True | _ \<Rightarrow> False)"

definition elems :: "json option \<Rightarrow> json list" where
  "elems v = (case v of Some (JArr xs ps) \<Rightarrow> xs | _ \<Rightarrow> [])"

text \<open>
  Lines 97 to 107: the array the results are taken from; \<open>None\<close> is the early
  \<^verbatim>\<open>return []\<close>. Of the values that are not arrays, only an object is truthy with
  \<^verbatim>\<open>typeof\<close> equal to \<^verbatim>\<open>'object'\<close>.
\<close>

definition unwrap :: "json \<Rightarrow> json list option" where
  "unwrap results =
     (case results of
        JArr xs ps \<Rightarrow> Some xs
      | JObj ps \<Rightarrow>
          (if isArray (map_of ps (ascii ''results'')) then Some (elems (map_of ps (ascii ''results'')))
           else if isArray (map_of ps (ascii ''items'')) then Some (elems (map_of ps (ascii ''items'')))
           else if isArray (map_of ps (ascii ''data'')) then Some (elems (map_of ps (ascii ''data'')))
           else None)
      | _ \<Rightarrow> None)"

text \<open>
  Lines 109 to 112: \<^verbatim>\<open>{...r, id: `res-${index}-${Date.now()}`}\<close>. The clock is read once in
  each call of the callback; \<open>now index\<close> is what it returns in the call for \<open>index\<close>.
\<close>

definition resId :: "(nat \<Rightarrow> int) \<Rightarrow> nat \<Rightarrow> jstring" where
  "resId now index = ascii ''res-'' @ dec index @ ascii ''-'' @ decInt (now index)"

definition withId :: "(nat \<Rightarrow> int) \<Rightarrow> json \<Rightarrow> nat \<Rightarrow> json" where
  "withId now r index =
     JObj (AList.update (ascii ''id'') (JStr (resId now index)) (ownEnumerable r))"

definition assignIds :: "(nat \<Rightarrow> int) \<Rightarrow> json list \<Rightarrow> json list" where
  "assignIds now rs = map (\<lambda>(r, index). withId now r index) (zip rs [0..<length rs])"

definition normalizeSearch :: "(nat \<Rightarrow> int) \<Rightarrow> json \<Rightarrow> json list" where
  "normalizeSearch now results =
     (case unwrap results of None \<Rightarrow> [] | Some rs \<Rightarrow> assignIds now rs)"

text \<open>
  The whole function. \<open>apiKey\<close> is \<^verbatim>\<open>process.env.API_KEY\<close>, \<open>JSON_parse\<close> is the parser
  (\<open>None\<close> when it throws), \<open>backend\<close> is how \<^verbatim>\<open>ai.models.generateContent\<close> settles for
  the prompt built from the query and the two dates, with \<^verbatim>\<open>response.text\<close> when it resolves.
  The error caught at line 113 is thrown again.
\<close>

definition searchQuery :: "jstring \<Rightarrow> jstring" where
  "searchQuery topic =
     (if trim topic \<noteq> [] then ascii ''\"'' @ topic @ ascii ''\"''
      else ascii (''top trending medical news, new drug approvals, '' @
                  ''or significant clinical trial results (Phase 3)''))"

definition searchMedicalArticles ::
  "jstring option \<Rightarrow> (jstring \<Rightarrow> json option) \<Rightarrow> (nat \<Rightarrow> int)
   \<Rightarrow> (jstring \<Rightarrow> jstring \<Rightarrow> jstring \<Rightarrow> jstring option outcome)
   \<Rightarrow> jstring \<Rightarrow> jstring \<Rightarrow> jstring \<Rightarrow> error + json list" where
  "searchMedicalArticles apiKey JSON_parse now backend topic startDate endDate =
     (case getAiClient apiKey of
        Inl e \<Rightarrow> Inl e
      | Inr ai \<Rightarrow>
          (case backend (searchQuery topic) startDate endDate of
             Rejects \<Rightarrow> Inl BackendError
           | Resolves text \<Rightarrow>
               (case text of
                  None \<Rightarrow> Inr []
                | Some t \<Rightarrow>
                    if t = [] then Inr []
                    else (case JSON_parse (trim (stripFences t)) of
                            None \<Rightarrow> Inl SyntaxError
                          | Some results \<Rightarrow> Inr (normalizeSearch now results)))))"

section \<open>\<^verbatim>\<open>generateIgContent\<close>\<close>

definition andThen :: "error + 'a \<Rightarrow> ('a \<Rightarrow> error + 'b) \<Rightarrow> error + 'b" where
  "andThen m f = (case m of Inl e \<Rightarrow> Inl e | Inr x \<Rightarrow> f x)"

definition defaultTable :: json where
  "defaultTable =
     JObj [(ascii ''title'', JStr [0x8CC7, 0x8A0A, 0x6574, 0x7406]),
           (ascii ''headers'',
              JArr [JStr [0x9805, 0x76EE], JStr [0x5167, 0x5BB9], JStr [0x5099, 0x8A3B]] []),
           (ascii ''rows'', JArr [] [])]"

definition defaultHeaders :: json where
  "defaultHeaders = JArr [JStr [0x9805, 0x76EE], JStr (ascii ''A''), JStr (ascii ''B'')] []"

text \<open>Line 185.\<close>

definition repairHashtags :: "json \<Rightarrow> error + json" where
  "repairHashtags json =
     andThen (getProp json (ascii ''hashtags'')) (\<lambda>h.
       if \<not> truthyOpt h then setProp json (ascii ''hashtags'') (JArr [] []) else Inr json)"

text \<open>Lines 189 and 190, on the table that \<^verbatim>\<open>json.comparisonTable\<close> refers to.\<close>

definition repairRows :: "json \<Rightarrow> error + json" where
  "repairRows t =
     andThen (getProp t (ascii ''rows'')) (\<lambda>r.
       if \<not> truthyOpt r then setProp t (ascii ''rows'') (JArr [] []) else Inr t)"

definition repairHeaders :: "json \<Rightarrow> error + json" where
  "repairHeaders t =
     andThen (getProp t (ascii ''headers'')) (\<lambda>h.
       if \<not> truthyOpt h then setProp t (ascii ''headers'') defaultHeaders else Inr t)"

text \<open>
  Lines 184 to 193. The two inner assignments change the table in place; the parsed value
  is a tree, so the change is seen through \<^verbatim>\<open>json.comparisonTable\<close> and nowhere else, which
  the model writes as storing the changed table back under the same key.
\<close>

definition repairDefaults :: "json \<Rightarrow> error + json" where
  "repairDefaults json =
     andThen (repairHashtags json) (\<lambda>json1.
     andThen (getProp json1 (ascii ''comparisonTable'')) (\<lambda>ct.
       if \<not> truthyOpt ct then setProp json1 (ascii ''comparisonTable'') defaultTable
       else
         andThen (repairRows (the ct)) (\<lambda>t1.
         andThen (repairHeaders t1) (\<lambda>t2.
           setProp json1 (ascii ''comparisonTable'') t2))))"

text \<open>
  The whole function; \<open>backend\<close> is how the call settles for the prompt built from the
  article. The error caught at line 194 is thrown again.
\<close>

definition generateIgContent ::
  "jstring option \<Rightarrow> (jstring \<Rightarrow> json option) \<Rightarrow> (json \<Rightarrow> jstring option outcome) \<Rightarrow> json
   \<Rightarrow> error + json" where
  "generateIgContent apiKey JSON_parse backend article =
     (case getAiClient apiKey of
        Inl e \<Rightarrow> Inl e
      | Inr ai \<Rightarrow>
          (case backend article of
             Rejects \<Rightarrow> Inl BackendError
           | Resolves text \<Rightarrow>
               (case text of
                  None \<Rightarrow> Inl NoContentGenerated
                | Some t \<Rightarrow>
                    if t = [] then Inl NoContentGenerated
                    else (case JSON_parse (trim (stripFences t)) of
                            None \<Rightarrow> Inl SyntaxError
                          | Some json \<Rightarrow> repairDefaults json))))"

section \<open>\<^verbatim>\<open>generateCuteImage\<close>\<close>

text \<open>The response of the image model, every field optional as in the SDK's types.\<close>

datatype blob = Blob (data: "jstring option")

datatype part = Part (inlineData: "blob option")

datatype content = Content (parts: "part list option")

datatype candidate = Candidate (content: "content option")

datatype response = Response (candidates: "candidate list option")

definition placeholder :: jstring where
  "placeholder =
     ascii (''data:image/png;base64,iVBORw0KGgoAAAANSUhEUgAAAAEAAAABCAQAAAC1HAwCAAAAC0lEQVR42mNk'' @
            ''YAAAAAYAAjCB0C8AAAAASUVORK5CYII='')"

text \<open>
  Lines 230 to 235: the value of \<^verbatim>\<open>base64Image\<close> after the loop, \<open>None\<close> when the first
  part with inline data has no \<^verbatim>\<open>data\<close>.
\<close>

fun scanParts :: "part list \<Rightarrow> jstring option" where
  "scanParts [] = Some []"
| "scanParts (p # ps) = (case inlineData p of Some b \<Rightarrow> data b | None \<Rightarrow> scanParts ps)"

text \<open>Lines 238 to 242.\<close>

definition imageUrlOf :: "jstring option \<Rightarrow> error + jstring" where
  "imageUrlOf base64Image =
     (case base64Image of
        None \<Rightarrow> Inl NoImageGenerated
      | Some b \<Rightarrow> if b = [] then Inl NoImageGenerated
                 else Inr (ascii ''data:image/png;base64,'' @ b))"

text \<open>
  Lines 227 to 242, the part of the \<^verbatim>\<open>try\<close> block after the call. Reading
  \<^verbatim>\<open>.content\<close> of a missing first candidate, or \<^verbatim>\<open>.parts\<close> of a missing content, throws.
\<close>

definition extractImage :: "response \<Rightarrow> error + jstring" where
  "extractImage r =
     (case candidates r of
        None \<Rightarrow> imageUrlOf (Some [])
      | Some cs \<Rightarrow>
          (case cs of
             [] \<Rightarrow> Inl TypeError
           | c # rest \<Rightarrow>
               (case content c of
                  None \<Rightarrow> Inl TypeError
                | Some ct \<Rightarrow>
                    (case parts ct of
                       None \<Rightarrow> imageUrlOf (Some [])
                     | Some ps \<Rightarrow> imageUrlOf (scanParts ps)))))"

text \<open>
  The whole function: the client is obtained at line 201, before the \<^verbatim>\<open>try\<close> block; the
  \<^verbatim>\<open>catch\<close> at line 243 turns every error of the block into the placeholder.
\<close>

definition generateCuteImage ::
  "jstring option \<Rightarrow> (jstring \<Rightarrow> jstring \<Rightarrow> response outcome) \<Rightarrow> jstring \<Rightarrow> jstring
   \<Rightarrow> error + jstring" where
  "generateCuteImage apiKey backend topic summary =
     (case getAiClient apiKey of
        Inl e \<Rightarrow> Inl e
      | Inr ai \<Rightarrow>
          (case backend topic summary of
             Rejects \<Rightarrow> Inr placeholder
           | Resolves r \<Rightarrow>
               (case extractImage r of
                  Inl e \<Rightarrow> Inr placeholder
                | Inr url \<Rightarrow> Inr url)))"

section \<open>\<^verbatim>\<open>IgPreview\<close>: the post as the preview reads it\<close>

text \<open>
  The preview reads the post through the interface \<^verbatim>\<open>IgPostContent\<close>. A field that the code
  guards with \<^verbatim>\<open>?.\<close> or \<^verbatim>\<open>||\<close> is optional here, \<open>None\<close> being undefined.
\<close>

record TableRow =
  aspect :: jstring
  value1 :: jstring
  value2 :: jstring

record ComparisonTable =
  title :: "jstring option"
  headers :: "jstring list option"
  rows :: "TableRow list option"

record IgPostContent =
  headline :: "jstring option"
  caption :: "jstring option"
  hashtags :: "jstring list option"
  comparisonTable :: "ComparisonTable option"

text \<open>\<^verbatim>\<open>s || d\<close> for an optional string, \<^verbatim>\<open>xs || d\<close> for an optional array, \<^verbatim>\<open>xs[i]\<close>.\<close>

definition orElse :: "jstring option \<Rightarrow> jstring \<Rightarrow> jstring" where
  "orElse v d = (case v of None \<Rightarrow> d | Some s \<Rightarrow> if s = [] then d else s)"

definition orElseArray :: "'a list option \<Rightarrow> 'a list \<Rightarrow> 'a list" where
  "orElseArray v d = (case v of None \<Rightarrow> d | Some xs \<Rightarrow> xs)"

definition elemAt :: "'a list \<Rightarrow> nat \<Rightarrow> 'a option" where
  "elemAt xs i = (if i < length xs then Some (xs ! i) else None)"

text \<open>\<^verbatim>\<open>table?.rows || []\<close> and \<^verbatim>\<open>table?.headers || d\<close>.\<close>

definition rowsOf :: "ComparisonTable option \<Rightarrow> TableRow list" where
  "rowsOf table = (case table of None \<Rightarrow> [] | Some t \<Rightarrow> orElseArray (rows t) [])"

definition headersOf :: "ComparisonTable option \<Rightarrow> jstring list \<Rightarrow> jstring list" where
  "headersOf table d = (case table of None \<Rightarrow> d | Some t \<Rightarrow> orElseArray (headers t) d)"

subsection \<open>\<^verbatim>\<open>handleCopyCaption\<close>\<close>

definition rowText :: "TableRow \<Rightarrow> jstring" where
  "rowText row = aspect row @ ascii '' | '' @ value1 row @ ascii '' | '' @ value2 row"

text \<open>Lines 584 to 588; the first line of the block starts with U+1F4CA and a space.\<close>

definition tableText :: "IgPostContent \<Rightarrow> jstring" where
  "tableText c =
     (let table = comparisonTable c;
          rs = rowsOf table;
          hs = headersOf table
                 [[0x9805, 0x76EE], [0x5167, 0x5BB9] @ ascii '' A'', [0x5167, 0x5BB9] @ ascii '' B'']
      in case table of
           None \<Rightarrow> []
         | Some t \<Rightarrow>
             if length rs > 0 then
               trim (ascii ''\<newline>'' @ [0xD83D, 0xDCCA] @ ascii '' ''
                       @ orElse (title t) [0x6BD4, 0x8F03, 0x8868] @ ascii ''\<newline>''
                     @ orElse (elemAt hs 0) (ascii ''-'') @ ascii '' | ''
                       @ orElse (elemAt hs 1) (ascii ''-'') @ ascii '' | ''
                       @ orElse (elemAt hs 2) (ascii ''-'') @ ascii ''\<newline>''
                     @ join (ascii ''\<newline>'') (map rowText rs) @ ascii ''\<newline>    '')
             else [])"

text \<open>Lines 590 to 598: the string handed to \<^verbatim>\<open>navigator.clipboard.writeText\<close>.\<close>

definition handleCopyCaption :: "IgPostContent \<Rightarrow> jstring" where
  "handleCopyCaption c =
     trim (ascii ''\<newline>'' @ orElse (headline c) [] @ ascii ''\<newline>''
           @ ascii ''\<newline>'' @ orElse (caption c) [] @ ascii ''\<newline>''
           @ ascii ''\<newline>'' @ tableText c @ ascii ''\<newline>''
           @ ascii ''\<newline>''
             @ join (ascii '' '') (map (\<lambda>tag. ascii ''#'' @ tag) (orElseArray (hashtags c) []))
             @ ascii ''\<newline>    '')"

subsection \<open>\<^verbatim>\<open>generateTableImage\<close>\<close>

text \<open>
  The image is the result of the calls made on the 2D context of a 1080 by 1080 canvas;
  the model returns these calls in order, for a canvas whose context exists.
  \<open>measureText font s\<close> is the width that \<^verbatim>\<open>ctx.measureText(s)\<close> reports under the font set
  at the time of the call.
\<close>

datatype call =
    SetFillStyle string
  | SetStrokeStyle string
  | SetFont string
  | SetTextAlign string
  | FillRect int int int int
  | FillText jstring int int
  | BeginPath
  | MoveTo int int
  | LineTo int int
  | Stroke

definition canvasSize :: int where
  "canvasSize = 1080"

definition startX :: int where
  "startX = 60"

definition startY :: int where
  "startY = 200"

definition colWidths :: "int list" where
  "colWidths = [240, 360, 360]"

definition colX :: "int list" where
  "colX = [startX, startX + colWidths ! 0, startX + colWidths ! 0 + colWidths ! 1]"

text \<open>Line 466. No later line of the function reads this value.\<close>

definition rowHeight :: "TableRow list \<Rightarrow> rat" where
  "rowHeight rs = of_int (canvasSize - startY - 100) / of_nat (length rs + 1)"

text \<open>Line 513.\<close>

definition yPos :: "nat \<Rightarrow> int" where
  "yPos i = startY + 120 + int i * 140"

text \<open>
  Lines 471 to 489. \<^verbatim>\<open>text.split('')\<close> is the list of code units; the loop runs over
  the remaining ones, \<open>n\<close> being the index of the next.
\<close>

fun wrapLoop ::
  "(jstring \<Rightarrow> rat) \<Rightarrow> int \<Rightarrow> rat \<Rightarrow> int \<Rightarrow> nat \<Rightarrow> jstring \<Rightarrow> jstring \<Rightarrow> int \<Rightarrow> call list" where
  "wrapLoop widthOf x maxWidth lineHeight n [] line currentY = [FillText line x currentY]"
| "wrapLoop widthOf x maxWidth lineHeight n (w # ws) line currentY =
     (let testLine = line @ [w];
          testWidth = widthOf testLine
      in if testWidth > maxWidth \<and> n > 0 then
           FillText line x currentY
             # wrapLoop widthOf x maxWidth lineHeight (Suc n) ws [w] (currentY + lineHeight)
         else wrapLoop widthOf x maxWidth lineHeight (Suc n) ws testLine currentY)"

definition wrapText :: "(jstring \<Rightarrow> rat) \<Rightarrow> jstring \<Rightarrow> int \<Rightarrow> int \<Rightarrow> int \<Rightarrow> int \<Rightarrow> call list" where
  "wrapText widthOf text x y maxWidth lineHeight =
     wrapLoop widthOf x (of_int maxWidth) lineHeight 0 text [] y"

text \<open>\<^verbatim>\<open>ctx.fillText(headers[i], ...)\<close> converts its argument to a string.\<close>

definition toText :: "jstring option \<Rightarrow> jstring" where
  "toText v = (case v of None \<Rightarrow> ascii ''undefined'' | Some s \<Rightarrow> s)"

definition bold32 :: string where
  "bold32 = ''bold 32px \"Noto Sans TC\", sans-serif''"

definition regular32 :: string where
  "regular32 = ''32px \"Noto Sans TC\", sans-serif''"

text \<open>Lines 512 to 534: the body of the callback for the row at index \<open>i\<close>.\<close>

definition drawRow :: "(string \<Rightarrow> jstring \<Rightarrow> rat) \<Rightarrow> TableRow \<Rightarrow> nat \<Rightarrow> call list" where
  "drawRow measureText row i =
     [BeginPath, SetStrokeStyle ''#e2e8f0'', MoveTo 40 (yPos i - 40),
      LineTo (canvasSize - 40) (yPos i - 40), Stroke,
      SetFont bold32, SetFillStyle ''#1e293b'']
     @ wrapText (measureText bold32) (aspect row) (colX ! 0 + 20) (yPos i) (colWidths ! 0 - 40) 40
     @ [SetFont regular32, SetFillStyle ''#475569'']
     @ wrapText (measureText regular32) (value1 row) (colX ! 1 + 20) (yPos i) (colWidths ! 1 - 40) 40
     @ wrapText (measureText regular32) (value2 row) (colX ! 2 + 20) (yPos i) (colWidths ! 2 - 40) 40"

definition drawRows :: "(string \<Rightarrow> jstring \<Rightarrow> rat) \<Rightarrow> TableRow list \<Rightarrow> call list" where
  "drawRows measureText rs =
     concat (map (\<lambda>(row, i). drawRow measureText row i) (zip rs [0..<length rs]))"

definition generateTableImage :: "(string \<Rightarrow> jstring \<Rightarrow> rat) \<Rightarrow> IgPostContent \<Rightarrow> call list" where
  "generateTableImage measureText c =
     (let table = comparisonTable c;
          hs = headersOf table [[0x9805, 0x76EE], ascii ''A'', ascii ''B''];
          rs = rowsOf table;
          ttl = orElse (case table of None \<Rightarrow> None | Some t \<Rightarrow> title t) [0x6BD4, 0x8F03, 0x8868]
      in [SetFillStyle ''#ffffff'', FillRect 0 0 canvasSize canvasSize,
          SetFillStyle ''#0f172a'', SetFont ''bold 60px \"Noto Sans TC\", sans-serif'',
          SetTextAlign ''center'', FillText ttl (canvasSize div 2) 120,
          SetFillStyle ''#f1f5f9'', FillRect 40 startY (canvasSize - 80) 80,
          SetFillStyle ''#334155'', SetFont ''bold 36px \"Noto Sans TC\", sans-serif'',
          SetTextAlign ''left'',
          FillText (toText (elemAt hs 0)) (colX ! 0 + 20) (startY + 55),
          SetFillStyle ''#0d9488'',
          FillText (toText (elemAt hs 1)) (colX ! 1 + 20) (startY + 55),
          SetFillStyle ''#db2777'',
          FillText (toText (elemAt hs 2)) (colX ! 2 + 20) (startY + 55),
          SetFont regular32, SetFillStyle ''#475569'']
         @ drawRows measureText rs
         @ [SetFillStyle ''#cbd5e1'', SetFont ''24px \"Noto Sans TC\", sans-serif'',
            SetTextAlign ''right'',
            FillText (ascii ''Generated by MediTrend'') (canvasSize - 60) (canvasSize - 40)])"

text \<open>The height at which each row's divider line starts, in the order drawn.\<close>

definition dividerYs :: "call list \<Rightarrow> int list" where
  "dividerYs cs = concat (map (\<lambda>c. case c of MoveTo x y \<Rightarrow> [y] | _ \<Rightarrow> []) cs)"


section \<open>\<^verbatim>\<open>App\<close>: the pipeline state\<close>

datatype LoadingState = IDLE | SEARCHING | GENERATING_POST | GENERATING_IMAGE | COMPLETE | ERROR

text \<open>
  The texts of the error banner: the no-results hint of line 769, the fallback of line 775,
  the configuration hint of line 776 and the fixed text of line 805.
\<close>

definition noResultsText :: jstring where
  "noResultsText =
     [0x627E, 0x4E0D, 0x5230, 0x76F8, 0x95DC, 0x8CC7, 0x6599, 0xFF0C, 0x8ACB, 0x5617, 0x8A66,
      0x653E, 0x5BEC, 0x65E5, 0x671F, 0x6216, 0x66F4, 0x63DB, 0x95DC, 0x9375, 0x5B57, 0x3002]"

definition searchFailedText :: jstring where
  "searchFailedText =
     [0x641C, 0x5C0B, 0x767C, 0x751F, 0x932F, 0x8AA4, 0xFF0C, 0x8ACB, 0x7A0D, 0x5F8C, 0x518D,
      0x8A66, 0x3002]"

definition apiKeyHintText :: jstring where
  "apiKeyHintText =
     ascii ''API Key '' @ [0x672A, 0x8A2D, 0x5B9A, 0xFF0C, 0x8ACB, 0x5728] @ ascii '' Vercel ''
       @ [0x74B0, 0x5883, 0x8B8A, 0x6578, 0x4E2D, 0x8A2D, 0x5B9A] @ ascii '' GEMINI_API_KEY''"

definition generationFailedText :: jstring where
  "generationFailedText =
     [0x751F, 0x6210, 0x5167, 0x5BB9, 0x6642, 0x767C, 0x751F, 0x932F, 0x8AA4, 0x3002]"

text \<open>\<^verbatim>\<open>s.includes(t)\<close>: \<open>t\<close> occurs in \<open>s\<close> as a run of consecutive code units.\<close>

fun includesText :: "jstring \<Rightarrow> jstring \<Rightarrow> bool" where
  "includesText [] t \<longleftrightarrow> t = []"
| "includesText (c # cs) t \<longleftrightarrow> prefix t (c # cs) \<or> includesText cs t"

record GeneratedPost =
  postContent :: json
  imageUrl :: jstring

record AppState =
  results :: "json list"
  loadingState :: LoadingState
  error :: "jstring option"
  generatedPost :: "GeneratedPost option"

definition initialState :: AppState where
  "initialState = \<lparr>results = [], loadingState = IDLE, error = None, generatedPost = None\<rparr>"

text \<open>
  \<^verbatim>\<open>handleSearch\<close>, lines 761 to 779, cut at its \<^verbatim>\<open>await\<close>: what runs at once, and what
  runs when \<^verbatim>\<open>searchMedicalArticles\<close> has settled with \<open>r\<close>: \<open>Inr\<close> the data it resolved
  with, \<open>Inl\<close> the \<^verbatim>\<open>message\<close> of the error it rejected with, \<open>None\<close> when the error has none.
\<close>

definition handleSearch_begin :: "AppState \<Rightarrow> AppState" where
  "handleSearch_begin s = s\<lparr>loadingState := SEARCHING, error := None, results := []\<rparr>"

definition handleSearch_settled :: "jstring option + json list \<Rightarrow> AppState \<Rightarrow> AppState" where
  "handleSearch_settled r s =
     (case r of
        Inr d \<Rightarrow>
          s\<lparr>error := (if length d = 0 then Some noResultsText else error s),
            results := d, loadingState := COMPLETE\<rparr>
      | Inl m \<Rightarrow>
          (let errorMessage = orElse m searchFailedText
           in s\<lparr>error := Some (if includesText errorMessage (ascii ''API Key'')
                                  then apiKeyHintText else errorMessage),
                loadingState := ERROR\<rparr>))"

text \<open>
  \<^verbatim>\<open>handleGenerate\<close>, lines 781 to 808, cut at its two \<^verbatim>\<open>await\<close>s.
\<close>

definition handleGenerate_begin :: "AppState \<Rightarrow> AppState" where
  "handleGenerate_begin s = s\<lparr>loadingState := GENERATING_POST, error := None\<rparr>"

definition handleGenerate_failed :: "AppState \<Rightarrow> AppState" where
  "handleGenerate_failed s = s\<lparr>error := Some generationFailedText, loadingState := ERROR\<rparr>"

definition handleGenerate_content :: "error + json \<Rightarrow> AppState \<Rightarrow> AppState" where
  "handleGenerate_content r s =
     (case r of
        Inr c \<Rightarrow> s\<lparr>loadingState := GENERATING_IMAGE\<rparr>
      | Inl e \<Rightarrow> handleGenerate_failed s)"

definition handleGenerate_image :: "json \<Rightarrow> error + jstring \<Rightarrow> AppState \<Rightarrow> AppState" where
  "handleGenerate_image c r s =
     (case r of
        Inr url \<Rightarrow>
          s\<lparr>generatedPost := Some \<lparr>postContent = c, imageUrl = url\<rparr>,
            loadingState := COMPLETE\<rparr>
      | Inl e \<Rightarrow> handleGenerate_failed s)"

definition closePreview :: "AppState \<Rightarrow> AppState" where
  "closePreview s = s\<lparr>generatedPost := None\<rparr>"

definition handleReset :: "AppState \<Rightarrow> AppState" where
  "handleReset s =
     s\<lparr>results := [], loadingState := IDLE, error := None, generatedPost := None\<rparr>"

text \<open>Line 270, which disables the submit button, and line 353, which disables the
  generate buttons.\<close>

definition isLoading :: "LoadingState \<Rightarrow> bool" where
  "isLoading l \<longleftrightarrow> l \<noteq> IDLE \<and> l \<noteq> COMPLETE \<and> l \<noteq> ERROR"

definition isGenerating :: "LoadingState \<Rightarrow> bool" where
  "isGenerating l \<longleftrightarrow> l = GENERATING_POST \<or> l = GENERATING_IMAGE"

text \<open>
  The calls in flight, each with what its continuation holds, and the events: what the
  user can do in the rendered page, and the settling of a call in flight.
\<close>

datatype task = SearchTask | ContentTask json | ImageTask json

record config =
  ui :: AppState
  tasks :: "task list"

datatype event =
    SubmitSearch jstring jstring jstring
  | ClickGenerate json
  | ClickReset
  | ClickClose
  | SearchSettles "jstring option + json list"
  | ContentSettles json "error + json"
  | ImageSettles json "error + jstring"

text \<open>
  What the page offers. The form submits when its button is enabled and both dates are
  filled (line 265); a generate button is rendered for each listed result and enabled
  unless a generation is running; the reset button of the header has no condition; the
  close button belongs to the preview.
\<close>

fun enabled :: "config \<Rightarrow> event \<Rightarrow> bool" where
  "enabled c (SubmitSearch topic startDate endDate) \<longleftrightarrow>
     \<not> isLoading (loadingState (ui c)) \<and> startDate \<noteq> [] \<and> endDate \<noteq> []"
| "enabled c (ClickGenerate r) \<longleftrightarrow>
     r \<in> set (results (ui c)) \<and> \<not> isGenerating (loadingState (ui c))"
| "enabled c ClickReset \<longleftrightarrow> True"
| "enabled c ClickClose \<longleftrightarrow> generatedPost (ui c) \<noteq> None"
| "enabled c (SearchSettles r) \<longleftrightarrow> SearchTask \<in> set (tasks c)"
| "enabled c (ContentSettles a r) \<longleftrightarrow> ContentTask a \<in> set (tasks c)"
| "enabled c (ImageSettles k r) \<longleftrightarrow> ImageTask k \<in> set (tasks c)"

fun fire :: "config \<Rightarrow> event \<Rightarrow> config" where
  "fire c (SubmitSearch topic startDate endDate) =
     \<lparr>ui = handleSearch_begin (ui c), tasks = SearchTask # tasks c\<rparr>"
| "fire c (ClickGenerate r) =
     \<lparr>ui = handleGenerate_begin (ui c), tasks = ContentTask r # tasks c\<rparr>"
| "fire c ClickReset = \<lparr>ui = handleReset (ui c), tasks = tasks c\<rparr>"
| "fire c ClickClose = \<lparr>ui = closePreview (ui c), tasks = tasks c\<rparr>"
| "fire c (SearchSettles r) =
     \<lparr>ui = handleSearch_settled r (ui c), tasks = remove1 SearchTask (tasks c)\<rparr>"
| "fire c (ContentSettles a r) =
     \<lparr>ui = handleGenerate_content r (ui c),
      tasks = (case r of Inr k \<Rightarrow> [ImageTask k] | Inl e \<Rightarrow> [])
                @ remove1 (ContentTask a) (tasks c)\<rparr>"
| "fire c (ImageSettles k r) =
     \<lparr>ui = handleGenerate_image k r (ui c), tasks = remove1 (ImageTask k) (tasks c)\<rparr>"

definition initialConfig :: config where
  "initialConfig = \<lparr>ui = initialState, tasks = []\<rparr>"

inductive reachable :: "config \<Rightarrow> bool" where
  reach_start: "reachable initialConfig"
| reach_step: "reachable c \<Longrightarrow> enabled c e \<Longrightarrow> reachable (fire c e)"

definition active :: "LoadingState \<Rightarrow> bool" where
  "active l \<longleftrightarrow> l = SEARCHING \<or> l = GENERATING_POST \<or> l = GENERATING_IMAGE"

section \<open>Auxiliary notions for the proofs\<close>

text \<open>The named properties of a value that can carry some.\<close>

fun propsOf :: "json \<Rightarrow> (jstring \<times> json) list option" where
  "propsOf (JObj ps) = Some ps"
| "propsOf (JArr xs ps) = Some ps"
| "propsOf v = None"

fun withProps :: "json \<Rightarrow> (jstring \<times> json) list \<Rightarrow> json" where
  "withProps (JObj ps) qs = JObj qs"
| "withProps (JArr xs ps) qs = JArr xs qs"
| "withProps v qs = v"

text \<open>A property list after one repair: the default is stored where the value is falsy.\<close>

definition fillDefault :: "jstring \<Rightarrow> json \<Rightarrow> (jstring \<times> json) list \<Rightarrow> (jstring \<times> json) list" where
  "fillDefault k d ps = (if truthyOpt (map_of ps k) then ps else AList.update k d ps)"

definition repairedTable :: "(jstring \<times> json) list \<Rightarrow> (jstring \<times> json) list" where
  "repairedTable ts =
     fillDefault (ascii ''headers'') defaultHeaders (fillDefault (ascii ''rows'') (JArr [] []) ts)"


text \<open>A table of ten equal rows.\<close>

definition tenRows :: "TableRow \<Rightarrow> IgPostContent" where
  "tenRows row =
     \<lparr>headline = Some (ascii ''H''), caption = Some (ascii ''C''), hashtags = Some [],
      comparisonTable =
        Some \<lparr>title = Some (ascii ''T''),
              headers = Some [ascii ''x'', ascii ''y'', ascii ''z''],
              rows = Some (replicate 10 row)\<rparr>\<rparr>"

section \<open>Decimal numerals and identifiers\<close>

lemma digit_unat: "n < 10 \<Longrightarrow> unat (of_nat (48 + n) :: 16 word) = 48 + n"
  by (simp only: unat_of_nat) simp

lemma digit_neq_minus: "n < 10 \<Longrightarrow> (of_nat (48 + n) :: 16 word) \<noteq> 45"
proof
  assume a: "n < 10" and b: "(of_nat (48 + n) :: 16 word) = 45"
  have "unat (of_nat (48 + n) :: 16 word) = unat (45 :: 16 word)" by (simp only: b)
  then have "48 + n = unat (45 :: 16 word)" by (simp only: digit_unat [OF a])
  then show False by simp
qed

lemma digit_inj: "n < 10 \<Longrightarrow> m < 10 \<Longrightarrow> (of_nat (48 + n) :: 16 word) = of_nat (48 + m) \<Longrightarrow> n = m"
proof -
  assume a: "n < 10" and b: "m < 10" and c: "(of_nat (48 + n) :: 16 word) = of_nat (48 + m)"
  have "unat (of_nat (48 + n) :: 16 word) = unat (of_nat (48 + m) :: 16 word)" by (simp only: c)
  then have "48 + n = 48 + m" by (simp only: digit_unat [OF a] digit_unat [OF b])
  then show "n = m" by simp
qed

lemma dec_nonempty: "dec n \<noteq> []"
  by (subst dec.simps) simp

lemma dec_no_minus: "45 \<notin> set (dec n)"
proof (induction n rule: dec.induct)
  case (1 n)
  show ?case
  proof (cases "n < 10")
    case True
    then show ?thesis using digit_neq_minus [of n] by (subst dec.simps) auto
  next
    case False
    then have "n mod 10 < 10" by simp
    then show ?thesis using False 1 digit_neq_minus [of "n mod 10"] by (subst dec.simps) auto
  qed
qed

lemma dec_inj: "dec n = dec m \<Longrightarrow> n = m"
proof (induction n arbitrary: m rule: dec.induct)
  case (1 n)
  show ?case
  proof (cases "n < 10")
    case n: True
    show ?thesis
    proof (cases "m < 10")
      case True
      then show ?thesis using n "1.prems" digit_inj [of n m]
        by (simp add: dec.simps [of n] dec.simps [of m])
    next
      case False
      then show ?thesis using n "1.prems" dec_nonempty [of "m div 10"]
        by (simp add: dec.simps [of n] dec.simps [of m])
    qed
  next
    case n: False
    show ?thesis
    proof (cases "m < 10")
      case True
      then show ?thesis using n "1.prems" dec_nonempty [of "n div 10"]
        by (simp add: dec.simps [of n] dec.simps [of m])
    next
      case False
      have e: "dec (n div 10) @ [of_nat (48 + n mod 10) :: 16 word] = dec (m div 10) @ [of_nat (48 + m mod 10)]"
        using n False "1.prems" by (simp add: dec.simps [of n] dec.simps [of m])
      then have d: "dec (n div 10) = dec (m div 10)" and l: "(of_nat (48 + n mod 10) :: 16 word) = of_nat (48 + m mod 10)"
        by simp_all
      have "n div 10 = m div 10" using "1.IH" [OF n d] .
      moreover have "n mod 10 = m mod 10" using digit_inj [OF _ _ l] by simp
      ultimately show ?thesis by (metis div_mult_mod_eq)
    qed
  qed
qed

lemma ascii_minus: "ascii ''-'' = [45]" by (simp add: ascii_def)

lemma resId_inj: "resId now i = resId now' j \<Longrightarrow> i = j"
proof -
  assume "resId now i = resId now' j"
  then have e: "dec i @ 45 # decInt (now i) = dec j @ 45 # decInt (now' j)"
    by (simp add: resId_def ascii_minus)
  have "takeWhile (\<lambda>c. c \<noteq> 45) (dec i @ 45 # decInt (now i)) = dec i"
    using dec_no_minus [of i] by (subst takeWhile_append2) auto
  moreover have "takeWhile (\<lambda>c. c \<noteq> 45) (dec j @ 45 # decInt (now' j)) = dec j"
    using dec_no_minus [of j] by (subst takeWhile_append2) auto
  ultimately have "dec i = dec j" using e by simp
  then show "i = j" by (rule dec_inj)
qed

lemma decInt_inj: "decInt a = decInt b \<Longrightarrow> a = b"
proof -
  assume e: "decInt a = decInt b"
  have neg: "\<And>n m. ascii ''-'' @ dec n \<noteq> dec m"
  proof
    fix n m
    assume "ascii ''-'' @ dec n = dec m"
    then have "45 # dec n = dec m" by (simp add: ascii_minus)
    then have "45 \<in> set (dec m)" by (metis list.set_intros(1))
    then show False using dec_no_minus [of m] by simp
  qed
  show "a = b"
  proof (cases "a < 0")
    case a: True
    show ?thesis
    proof (cases "b < 0")
      case True
      with a e have "dec (nat (- a)) = dec (nat (- b))" by (simp add: decInt_def)
      then have "nat (- a) = nat (- b)" by (rule dec_inj)
      with a True show ?thesis by simp
    next
      case False
      with a e neg [of "nat (- a)" "nat b"] show ?thesis by (simp add: decInt_def)
    qed
  next
    case a: False
    show ?thesis
    proof (cases "b < 0")
      case True
      with a e neg [of "nat (- b)" "nat a"] show ?thesis by (simp add: decInt_def)
    next
      case False
      with a e have "dec (nat a) = dec (nat b)" by (simp add: decInt_def)
      then have "nat a = nat b" by (rule dec_inj)
      with a False show ?thesis by simp
    qed
  qed
qed

lemma resId_clock: "resId now i = resId now' i \<longleftrightarrow> now i = now' i"
  by (auto simp: resId_def dest: decInt_inj)

lemma length_assignIds: "length (assignIds now rs) = length rs"
  by (simp add: assignIds_def)

lemma nth_assignIds: "i < length rs \<Longrightarrow> assignIds now rs ! i = withId now (rs ! i) i"
  by (simp add: assignIds_def)

lemma getProp_withId_id: "getProp (withId now r i) (ascii ''id'') = Inr (Some (JStr (resId now i)))"
  by (simp add: withId_def update_conv')

section \<open>Search normalisation\<close>

lemma normalizeSearch_unwrap: "unwrap v = Some rs \<Longrightarrow> normalizeSearch now v = assignIds now rs"
  by (simp add: normalizeSearch_def)

lemma unwrap_results:
  "map_of ps (ascii ''results'') = Some (JArr xs qs) \<Longrightarrow> unwrap (JObj ps) = Some xs"
  by (simp add: unwrap_def isArray_def elems_def)

text \<open>
  Claim C6. When the parsed value is an object whose \<^verbatim>\<open>results\<close> property is an array of N
  elements, the search normalisation returns N elements; the element at index \<open>i\<close> has the
  identifier built from \<open>i\<close> and the clock, whatever \<^verbatim>\<open>id\<close> the backend supplied; and
  the identifiers are pairwise distinct.
\<close>

theorem search_results_array_ids:
  assumes "map_of ps (ascii ''results'') = Some (JArr xs qs)"
  shows "length (normalizeSearch now (JObj ps)) = length xs
     \<and> (\<forall>i<length xs. getProp (normalizeSearch now (JObj ps) ! i) (ascii ''id'')
                        = Inr (Some (JStr (resId now i))))
     \<and> distinct (map (\<lambda>r. getProp r (ascii ''id'')) (normalizeSearch now (JObj ps)))"
proof -
  have n: "normalizeSearch now (JObj ps) = assignIds now xs"
    using assms by (simp add: normalizeSearch_unwrap unwrap_results)
  have ids: "\<forall>i<length xs. getProp (assignIds now xs ! i) (ascii ''id'') = Inr (Some (JStr (resId now i)))"
    by (simp add: nth_assignIds getProp_withId_id)
  have "distinct (map (\<lambda>r. getProp r (ascii ''id'')) (assignIds now xs))"
    unfolding distinct_conv_nth
  proof (intro allI impI)
    fix i j
    assume i: "i < length (map (\<lambda>r. getProp r (ascii ''id'')) (assignIds now xs))"
      and j: "j < length (map (\<lambda>r. getProp r (ascii ''id'')) (assignIds now xs))"
      and ne: "i \<noteq> j"
    from i j have i': "i < length xs" and j': "j < length xs" by (simp_all add: length_assignIds)
    show "map (\<lambda>r. getProp r (ascii ''id'')) (assignIds now xs) ! i
        \<noteq> map (\<lambda>r. getProp r (ascii ''id'')) (assignIds now xs) ! j"
      using i' j' ne resId_inj [of now i now j]
      by (auto simp: length_assignIds nth_assignIds getProp_withId_id)
  qed
  with n ids show ?thesis by (simp add: length_assignIds)
qed

theorem search_results_array_ids_witness:
  "map_of [(ascii ''results'', JArr [JObj [(ascii ''id'', JStr (ascii ''x''))], JObj []] [])]
      (ascii ''results'')
     = Some (JArr [JObj [(ascii ''id'', JStr (ascii ''x''))], JObj []] [])
   \<and> length (normalizeSearch (\<lambda>i. 1700000000000)
        (JObj [(ascii ''results'', JArr [JObj [(ascii ''id'', JStr (ascii ''x''))], JObj []] [])])) = 2
   \<and> distinct (map (\<lambda>r. getProp r (ascii ''id'')) (normalizeSearch (\<lambda>i. 1700000000000)
        (JObj [(ascii ''results'', JArr [JObj [(ascii ''id'', JStr (ascii ''x''))], JObj []] [])])))"
proof -
  have h: "map_of [(ascii ''results'', JArr [JObj [(ascii ''id'', JStr (ascii ''x''))], JObj []] [])]
      (ascii ''results'')
     = Some (JArr [JObj [(ascii ''id'', JStr (ascii ''x''))], JObj []] [])" by simp
  show ?thesis using h search_results_array_ids [OF h, of "\<lambda>i. 1700000000000"] by simp
qed

text \<open>
  Claim C10. The search normalisation changes only the \<^verbatim>\<open>id\<close> property of a recovered
  object: the result at index \<open>i\<close> is an object whose properties are those of the raw element
  with \<^verbatim>\<open>id\<close> set, so every other property reads as it did before, an absent one as
  absent.
\<close>

theorem search_keeps_other_fields:
  assumes "unwrap v = Some rs" and "i < length rs" and "rs ! i = JObj props"
  shows "\<exists>qs. normalizeSearch now v ! i = JObj qs
            \<and> map_of qs = (map_of props)(ascii ''id'' \<mapsto> JStr (resId now i))
            \<and> (\<forall>k. k \<noteq> ascii ''id'' \<longrightarrow> getProp (normalizeSearch now v ! i) k = getProp (rs ! i) k)"
  using assms
  by (simp add: normalizeSearch_unwrap nth_assignIds withId_def update_conv')

theorem search_keeps_other_fields_witness:
  "unwrap (JArr [JObj [(ascii ''title'', JStr (ascii ''T''))]] [])
     = Some [JObj [(ascii ''title'', JStr (ascii ''T''))]]
   \<and> getProp (normalizeSearch (\<lambda>i. 5) (JArr [JObj [(ascii ''title'', JStr (ascii ''T''))]] []) ! 0)
        (ascii ''title'') = Inr (Some (JStr (ascii ''T'')))
   \<and> getProp (normalizeSearch (\<lambda>i. 5) (JArr [JObj [(ascii ''title'', JStr (ascii ''T''))]] []) ! 0)
        (ascii ''url'') = Inr None"
proof -
  have h: "unwrap (JArr [JObj [(ascii ''title'', JStr (ascii ''T''))]] [])
     = Some [JObj [(ascii ''title'', JStr (ascii ''T''))]]" by (simp add: unwrap_def)
  have t: "ascii ''title'' \<noteq> ascii ''id''" and u: "ascii ''url'' \<noteq> ascii ''id''"
    by (simp_all add: ascii_def)
  show ?thesis
    using h t u search_keeps_other_fields [OF h, of 0 "[(ascii ''title'', JStr (ascii ''T''))]" "\<lambda>i. 5"]
    by (auto simp: ascii_def)
qed

lemma unwrap_primitive:
  "\<not> isArray (Some v) \<Longrightarrow> (\<forall>ps. v \<noteq> JObj ps) \<Longrightarrow> unwrap v = None"
  by (cases v) (simp_all add: unwrap_def isArray_def)

lemma searchMedicalArticles_parsed:
  assumes "getAiClient apiKey = Inr ()"
    and "backend (searchQuery topic) startDate endDate = Resolves (Some t)"
    and "t \<noteq> []"
  shows "searchMedicalArticles apiKey JSON_parse now backend topic startDate endDate =
           (case JSON_parse (trim (stripFences t)) of
              None \<Rightarrow> Inl SyntaxError
            | Some v \<Rightarrow> Inr (normalizeSearch now v))"
  using assms by (simp add: searchMedicalArticles_def)

lemma isArray_iff: "isArray v \<longleftrightarrow> (\<exists>xs qs. v = Some (JArr xs qs))"
  by (cases v) (auto simp: isArray_def split: json.splits)

lemma unwrap_object_first:
  assumes "find (\<lambda>k. \<exists>ys rs. map_of ps k = Some (JArr ys rs))
             [ascii ''results'', ascii ''items'', ascii ''data''] = Some k"
    and "map_of ps k = Some (JArr xs qs)"
  shows "unwrap (JObj ps) = Some xs"
  using assms
  by (auto simp: unwrap_def isArray_iff elems_def split: if_splits)

lemma unwrap_object_none:
  assumes "find (\<lambda>k. \<exists>ys rs. map_of ps k = Some (JArr ys rs))
             [ascii ''results'', ascii ''items'', ascii ''data''] = None"
  shows "unwrap (JObj ps) = None"
  using assms
  by (auto simp: unwrap_def isArray_iff split: if_splits)

text \<open>
  Claim C4. When the response text is not empty: a parse failure is the only error of the
  search; for a parsed object, the first of the keys \<^verbatim>\<open>results\<close>, \<^verbatim>\<open>items\<close>, \<^verbatim>\<open>data\<close>, in
  this order, whose value is an array decides the result, which has one element for each
  element of that array, the element at index \<open>i\<close> being that array's with its identifier
  set; when no key holds an array the result is the empty list; a parsed value that is
  neither an array nor an object yields the empty list.
\<close>

theorem search_unwrap_priority:
  assumes "getAiClient apiKey = Inr ()"
    and "backend (searchQuery topic) startDate endDate = Resolves (Some t)"
    and "t \<noteq> []"
  shows "(JSON_parse (trim (stripFences t)) = None \<longrightarrow>
            searchMedicalArticles apiKey JSON_parse now backend topic startDate endDate
              = Inl SyntaxError)
     \<and> (\<forall>ps k xs qs. JSON_parse (trim (stripFences t)) = Some (JObj ps) \<longrightarrow>
            find (\<lambda>k. \<exists>ys rs. map_of ps k = Some (JArr ys rs))
              [ascii ''results'', ascii ''items'', ascii ''data''] = Some k \<longrightarrow>
            map_of ps k = Some (JArr xs qs) \<longrightarrow>
            (\<exists>out. searchMedicalArticles apiKey JSON_parse now backend topic startDate endDate
                     = Inr out
                 \<and> length out = length xs
                 \<and> (\<forall>i<length xs. out ! i = withId now (xs ! i) i)))
     \<and> (\<forall>ps. JSON_parse (trim (stripFences t)) = Some (JObj ps) \<longrightarrow>
            find (\<lambda>k. \<exists>ys rs. map_of ps k = Some (JArr ys rs))
              [ascii ''results'', ascii ''items'', ascii ''data''] = None \<longrightarrow>
            searchMedicalArticles apiKey JSON_parse now backend topic startDate endDate = Inr [])
     \<and> (\<forall>v. JSON_parse (trim (stripFences t)) = Some v \<longrightarrow>
            (\<forall>xs qs. v \<noteq> JArr xs qs) \<longrightarrow> (\<forall>ps. v \<noteq> JObj ps) \<longrightarrow>
            searchMedicalArticles apiKey JSON_parse now backend topic startDate endDate = Inr [])
     \<and> (\<forall>e. searchMedicalArticles apiKey JSON_parse now backend topic startDate endDate = Inl e
            \<longrightarrow> e = SyntaxError \<and> JSON_parse (trim (stripFences t)) = None)"
proof (intro conjI allI impI)
  assume "JSON_parse (trim (stripFences t)) = None"
  then show "searchMedicalArticles apiKey JSON_parse now backend topic startDate endDate
              = Inl SyntaxError"
    by (simp add: searchMedicalArticles_parsed [where backend = backend and topic = topic, OF assms])
next
  fix ps k xs qs
  assume p: "JSON_parse (trim (stripFences t)) = Some (JObj ps)"
    and f: "find (\<lambda>k. \<exists>ys rs. map_of ps k = Some (JArr ys rs))
              [ascii ''results'', ascii ''items'', ascii ''data''] = Some k"
    and m: "map_of ps k = Some (JArr xs qs)"
  have "searchMedicalArticles apiKey JSON_parse now backend topic startDate endDate
          = Inr (assignIds now xs)"
    using p unwrap_object_first [OF f m]
    by (simp add: searchMedicalArticles_parsed [where backend = backend and topic = topic, OF assms]
        normalizeSearch_def)
  then show "\<exists>out. searchMedicalArticles apiKey JSON_parse now backend topic startDate endDate
                     = Inr out
                 \<and> length out = length xs
                 \<and> (\<forall>i<length xs. out ! i = withId now (xs ! i) i)"
    by (simp add: length_assignIds nth_assignIds)
next
  fix ps
  assume p: "JSON_parse (trim (stripFences t)) = Some (JObj ps)"
    and f: "find (\<lambda>k. \<exists>ys rs. map_of ps k = Some (JArr ys rs))
              [ascii ''results'', ascii ''items'', ascii ''data''] = None"
  show "searchMedicalArticles apiKey JSON_parse now backend topic startDate endDate = Inr []"
    using p unwrap_object_none [OF f]
    by (simp add: searchMedicalArticles_parsed [where backend = backend and topic = topic, OF assms]
        normalizeSearch_def)
next
  fix v
  assume "JSON_parse (trim (stripFences t)) = Some v" "\<forall>xs qs. v \<noteq> JArr xs qs" "\<forall>ps. v \<noteq> JObj ps"
  then show "searchMedicalArticles apiKey JSON_parse now backend topic startDate endDate = Inr []"
    by (simp add: searchMedicalArticles_parsed [where backend = backend and topic = topic, OF assms]
        normalizeSearch_def unwrap_primitive isArray_iff)
next
  fix e
  assume "searchMedicalArticles apiKey JSON_parse now backend topic startDate endDate = Inl e"
  then show "e = SyntaxError"
    by (simp add: searchMedicalArticles_parsed [where backend = backend and topic = topic, OF assms]
        split: option.splits)
next
  fix e
  assume "searchMedicalArticles apiKey JSON_parse now backend topic startDate endDate = Inl e"
  then show "JSON_parse (trim (stripFences t)) = None"
    by (simp add: searchMedicalArticles_parsed [where backend = backend and topic = topic, OF assms]
        split: option.splits)
qed

theorem search_unwrap_priority_witness:
  "getAiClient (Some (ascii ''k'')) = Inr ()
   \<and> (\<lambda>q s e. Resolves (Some (ascii ''x''))) (searchQuery []) (ascii ''2024-01-01'') (ascii ''2024-02-01'')
       = Resolves (Some (ascii ''x''))
   \<and> ascii ''x'' \<noteq> []
   \<and> find (\<lambda>k. \<exists>ys rs. map_of [(ascii ''data'', JArr [JNull] []),
                                  (ascii ''items'', JArr [JObj [(ascii ''title'', JStr (ascii ''T''))]] []),
                                  (ascii ''results'', JStr (ascii ''none''))] k = Some (JArr ys rs))
        [ascii ''results'', ascii ''items'', ascii ''data''] = Some (ascii ''items'')
   \<and> searchMedicalArticles (Some (ascii ''k''))
        (\<lambda>s. Some (JObj [(ascii ''data'', JArr [JNull] []),
                         (ascii ''items'', JArr [JObj [(ascii ''title'', JStr (ascii ''T''))]] []),
                         (ascii ''results'', JStr (ascii ''none''))]))
        (\<lambda>i. 7) (\<lambda>q s e. Resolves (Some (ascii ''x''))) [] (ascii ''2024-01-01'') (ascii ''2024-02-01'')
       = Inr [JObj [(ascii ''title'', JStr (ascii ''T'')), (ascii ''id'', JStr (ascii ''res-0-7''))]]
   \<and> searchMedicalArticles (Some (ascii ''k'')) (\<lambda>s. Some (JNum (Finite 3)))
        (\<lambda>i. 7) (\<lambda>q s e. Resolves (Some (ascii ''x''))) [] (ascii ''2024-01-01'') (ascii ''2024-02-01'')
       = Inr []"
proof -
  let ?ps = "[(ascii ''data'', JArr [JNull] []),
              (ascii ''items'', JArr [JObj [(ascii ''title'', JStr (ascii ''T''))]] []),
              (ascii ''results'', JStr (ascii ''none''))]"
  have k: "getAiClient (Some (ascii ''k'')) = Inr ()" by (simp add: getAiClient_def ascii_def)
  have r: "(\<lambda>q s e. Resolves (Some (ascii ''x''))) (searchQuery []) (ascii ''2024-01-01'') (ascii ''2024-02-01'')
       = Resolves (Some (ascii ''x''))" by simp
  have t: "ascii ''x'' \<noteq> []" by (simp add: ascii_def)
  have f: "find (\<lambda>k. \<exists>ys rs. map_of ?ps k = Some (JArr ys rs))
        [ascii ''results'', ascii ''items'', ascii ''data''] = Some (ascii ''items'')"
    by (simp add: ascii_def)
  have m: "map_of ?ps (ascii ''items'') = Some (JArr [JObj [(ascii ''title'', JStr (ascii ''T''))]] [])"
    by (simp add: ascii_def)
  note th = search_unwrap_priority [where backend = "\<lambda>q s e. Resolves (Some (ascii ''x''))"
        and topic = "[]" and now = "\<lambda>i. 7", OF k r t]
  have "\<exists>out. searchMedicalArticles (Some (ascii ''k'')) (\<lambda>s. Some (JObj ?ps))
        (\<lambda>i. 7) (\<lambda>q s e. Resolves (Some (ascii ''x''))) [] (ascii ''2024-01-01'') (ascii ''2024-02-01'')
          = Inr out
       \<and> length out = length [JObj [(ascii ''title'', JStr (ascii ''T''))]]
       \<and> (\<forall>i<length [JObj [(ascii ''title'', JStr (ascii ''T''))]].
             out ! i = withId (\<lambda>i. 7) ([JObj [(ascii ''title'', JStr (ascii ''T''))]] ! i) i)"
    using th [where JSON_parse = "\<lambda>s. Some (JObj ?ps)", THEN conjunct2, THEN conjunct1,
        rule_format, OF refl f m] .
  then obtain out where
    o: "searchMedicalArticles (Some (ascii ''k'')) (\<lambda>s. Some (JObj ?ps))
        (\<lambda>i. 7) (\<lambda>q s e. Resolves (Some (ascii ''x''))) [] (ascii ''2024-01-01'') (ascii ''2024-02-01'')
          = Inr out"
    and l: "length out = 1"
    and e: "out ! 0 = withId (\<lambda>i. 7) (JObj [(ascii ''title'', JStr (ascii ''T''))]) 0"
    by auto
  from l e have "out = [withId (\<lambda>i. 7) (JObj [(ascii ''title'', JStr (ascii ''T''))]) 0]"
    by (cases out) auto
  also have "\<dots> = [JObj [(ascii ''title'', JStr (ascii ''T'')), (ascii ''id'', JStr (ascii ''res-0-7''))]]"
    by (simp add: withId_def resId_def decInt_def dec.simps [of 0] dec.simps [of 7] ascii_def)
  finally have a: "searchMedicalArticles (Some (ascii ''k'')) (\<lambda>s. Some (JObj ?ps))
        (\<lambda>i. 7) (\<lambda>q s e. Resolves (Some (ascii ''x''))) [] (ascii ''2024-01-01'') (ascii ''2024-02-01'')
       = Inr [JObj [(ascii ''title'', JStr (ascii ''T'')), (ascii ''id'', JStr (ascii ''res-0-7''))]]"
    using o by simp
  have b: "searchMedicalArticles (Some (ascii ''k'')) (\<lambda>s. Some (JNum (Finite 3)))
        (\<lambda>i. 7) (\<lambda>q s e. Resolves (Some (ascii ''x''))) [] (ascii ''2024-01-01'') (ascii ''2024-02-01'')
       = Inr []"
    using th [where JSON_parse = "\<lambda>s. Some (JNum (Finite 3))"] by simp
  show ?thesis
    by (intro conjI) (rule k r t f a b)+
qed

section \<open>Repair of the post content\<close>

lemma key_hashtags_table: "ascii ''hashtags'' \<noteq> ascii ''comparisonTable''"
  by (simp add: ascii_def)

lemma key_rows_headers: "ascii ''rows'' \<noteq> ascii ''headers''"
  by (simp add: ascii_def)

lemma getProp_propsOf: "propsOf v = Some ps \<Longrightarrow> getProp v k = Inr (map_of ps k)"
  by (cases v) simp_all

lemma setProp_propsOf: "propsOf v = Some ps \<Longrightarrow> setProp v k x = Inr (withProps v (AList.update k x ps))"
  by (cases v) simp_all

lemma propsOf_withProps: "propsOf v = Some ps \<Longrightarrow> propsOf (withProps v qs) = Some qs"
  by (cases v) simp_all

lemma withProps_same: "propsOf v = Some ps \<Longrightarrow> withProps v ps = v"
  by (cases v) simp_all

lemma truthy_prim_get: "propsOf v = None \<Longrightarrow> getProp v k = Inl TypeError \<or> getProp v k = Inr None"
  by (cases v) simp_all

lemma setProp_prim: "propsOf v = None \<Longrightarrow> setProp v k x = Inl TypeError"
  by (cases v) simp_all

text \<open>One repair of a property with a default.\<close>

lemma repair_step_total:
  assumes "propsOf v = Some ps"
  shows "andThen (getProp v k) (\<lambda>h. if \<not> truthyOpt h then setProp v k d else Inr v)
           = Inr (withProps v (if truthyOpt (map_of ps k) then ps else AList.update k d ps))"
  using assms by (simp add: andThen_def getProp_propsOf setProp_propsOf withProps_same)

lemma map_of_fillDefault_other: "k' \<noteq> k \<Longrightarrow> map_of (fillDefault k d ps) k' = map_of ps k'"
  by (simp add: fillDefault_def update_conv')

lemma map_of_fillDefault_same:
  "map_of (fillDefault k d ps) k = (if truthyOpt (map_of ps k) then map_of ps k else Some d)"
  by (simp add: fillDefault_def update_conv')

lemma truthy_fillDefault: "truthy d \<Longrightarrow> truthyOpt (map_of (fillDefault k d ps) k)"
  by (simp add: map_of_fillDefault_same truthyOpt_def)

lemma fillDefault_idem: "truthyOpt (map_of ps k) \<Longrightarrow> fillDefault k d ps = ps"
  by (simp add: fillDefault_def)

lemma repairHashtags_eval:
  "propsOf x = Some ps \<Longrightarrow>
   repairHashtags x = Inr (withProps x (fillDefault (ascii ''hashtags'') (JArr [] []) ps))"
  unfolding repairHashtags_def fillDefault_def by (rule repair_step_total)

lemma repairRows_eval:
  "propsOf t = Some ts \<Longrightarrow>
   repairRows t = Inr (withProps t (fillDefault (ascii ''rows'') (JArr [] []) ts))"
  unfolding repairRows_def fillDefault_def by (rule repair_step_total)

lemma repairHeaders_eval:
  "propsOf t = Some ts \<Longrightarrow>
   repairHeaders t = Inr (withProps t (fillDefault (ascii ''headers'') defaultHeaders ts))"
  unfolding repairHeaders_def fillDefault_def by (rule repair_step_total)

lemma repair_prim:
  "propsOf v = None \<Longrightarrow>
   andThen (getProp v k) (\<lambda>h. if \<not> truthyOpt h then setProp v k d else Inr v) = Inl TypeError"
  using truthy_prim_get [of v k] setProp_prim [of v k d]
  by (auto simp: andThen_def truthyOpt_def)

lemma withProps_withProps: "withProps (withProps v ps) qs = withProps v qs"
  by (cases v) simp_all

lemma repairDefaults_prim: "propsOf x = None \<Longrightarrow> repairDefaults x = Inl TypeError"
  unfolding repairDefaults_def repairHashtags_def
  by (simp add: repair_prim) (simp add: andThen_def)

lemma repairDefaults_eval:
  assumes "propsOf x = Some ps"
  shows "repairDefaults x =
     (if \<not> truthyOpt (map_of ps (ascii ''comparisonTable'')) then
        Inr (withProps x (AList.update (ascii ''comparisonTable'') defaultTable
               (fillDefault (ascii ''hashtags'') (JArr [] []) ps)))
      else case propsOf (the (map_of ps (ascii ''comparisonTable''))) of
             None \<Rightarrow> Inl TypeError
           | Some ts \<Rightarrow>
               Inr (withProps x (AList.update (ascii ''comparisonTable'')
                      (withProps (the (map_of ps (ascii ''comparisonTable''))) (repairedTable ts))
                      (fillDefault (ascii ''hashtags'') (JArr [] []) ps))))"
proof -
  let ?ps1 = "fillDefault (ascii ''hashtags'') (JArr [] []) ps"
  let ?j1 = "withProps x ?ps1"
  have p1: "propsOf ?j1 = Some ?ps1" using assms by (rule propsOf_withProps)
  have g: "getProp ?j1 (ascii ''comparisonTable'') = Inr (map_of ps (ascii ''comparisonTable''))"
    using key_hashtags_table
    by (simp add: getProp_propsOf [OF p1] map_of_fillDefault_other)
  have s: "\<And>v. setProp ?j1 (ascii ''comparisonTable'') v
              = Inr (withProps x (AList.update (ascii ''comparisonTable'') v ?ps1))"
    by (simp add: setProp_propsOf [OF p1] withProps_withProps)
  show ?thesis
  proof (cases "truthyOpt (map_of ps (ascii ''comparisonTable''))")
    case False
    then show ?thesis
      unfolding repairDefaults_def
      by (simp add: repairHashtags_eval [OF assms] andThen_def g s)
  next
    case True
    show ?thesis
    proof (cases "propsOf (the (map_of ps (ascii ''comparisonTable'')))")
      case None
      have "repairRows (the (map_of ps (ascii ''comparisonTable''))) = Inl TypeError"
        unfolding repairRows_def using None by (rule repair_prim)
      then show ?thesis
        unfolding repairDefaults_def using True None
        by (simp add: repairHashtags_eval [OF assms] andThen_def g)
    next
      case (Some ts)
      let ?t = "the (map_of ps (ascii ''comparisonTable''))"
      have r: "repairRows ?t = Inr (withProps ?t (fillDefault (ascii ''rows'') (JArr [] []) ts))"
        using Some by (rule repairRows_eval)
      have "propsOf (withProps ?t (fillDefault (ascii ''rows'') (JArr [] []) ts))
              = Some (fillDefault (ascii ''rows'') (JArr [] []) ts)"
        using Some by (rule propsOf_withProps)
      then have h: "repairHeaders (withProps ?t (fillDefault (ascii ''rows'') (JArr [] []) ts))
                = Inr (withProps ?t (repairedTable ts))"
        by (simp add: repairHeaders_eval withProps_withProps repairedTable_def)
      show ?thesis
        unfolding repairDefaults_def using True Some
        by (simp add: repairHashtags_eval [OF assms] andThen_def g s r h)
    qed
  qed
qed

lemma generateIgContent_parsed:
  assumes "getAiClient apiKey = Inr ()" and "backend article = Resolves (Some t)" and "t \<noteq> []"
  shows "generateIgContent apiKey JSON_parse backend article =
           (case JSON_parse (trim (stripFences t)) of
              None \<Rightarrow> Inl SyntaxError
            | Some json \<Rightarrow> repairDefaults json)"
  using assms by (simp add: generateIgContent_def)

lemma repairDefaults_present:
  assumes "repairDefaults x = Inr y"
  shows "\<exists>h t r hd. getProp y (ascii ''hashtags'') = Inr (Some h) \<and> truthy h
           \<and> getProp y (ascii ''comparisonTable'') = Inr (Some t) \<and> truthy t
           \<and> getProp t (ascii ''rows'') = Inr (Some r) \<and> truthy r
           \<and> getProp t (ascii ''headers'') = Inr (Some hd) \<and> truthy hd"
proof (cases "propsOf x")
  case None
  then show ?thesis using assms by (simp add: repairDefaults_prim)
next
  case (Some ps)
  let ?ps1 = "fillDefault (ascii ''hashtags'') (JArr [] []) ps"
  have h: "truthyOpt (map_of ?ps1 (ascii ''hashtags''))" by (simp add: truthy_fillDefault)
  have hk: "\<And>v. truthyOpt (map_of (AList.update (ascii ''comparisonTable'') v ?ps1) (ascii ''hashtags''))"
    using h key_hashtags_table by (simp add: update_conv')
  have pw: "\<And>qs. propsOf (withProps x qs) = Some qs" using Some by (rule propsOf_withProps)
  show ?thesis
  proof (cases "truthyOpt (map_of ps (ascii ''comparisonTable''))")
    case False
    then have y: "y = withProps x (AList.update (ascii ''comparisonTable'') defaultTable ?ps1)"
      using assms by (simp add: repairDefaults_eval [OF Some])
    have "getProp defaultTable (ascii ''rows'') = Inr (Some (JArr [] []))"
      and "getProp defaultTable (ascii ''headers'')
             = Inr (Some (JArr [JStr [0x9805, 0x76EE], JStr [0x5167, 0x5BB9], JStr [0x5099, 0x8A3B]] []))"
      by (simp_all add: defaultTable_def ascii_def)
    then show ?thesis
      using hk [of defaultTable]
      by (auto simp: y getProp_propsOf [OF pw] update_conv' truthyOpt_def defaultTable_def
          split: option.splits)
  next
    case True
    let ?t = "the (map_of ps (ascii ''comparisonTable''))"
    from True assms obtain ts where ts: "propsOf ?t = Some ts"
      and y: "y = withProps x (AList.update (ascii ''comparisonTable'')
                   (withProps ?t (repairedTable ts)) ?ps1)"
      by (auto simp: repairDefaults_eval [OF Some] split: option.splits)
    have pt: "propsOf (withProps ?t (repairedTable ts)) = Some (repairedTable ts)"
      using ts by (rule propsOf_withProps)
    have tt: "truthy (withProps ?t (repairedTable ts))" using ts by (cases ?t) simp_all
    have hd: "truthyOpt (map_of (repairedTable ts) (ascii ''headers''))"
      unfolding repairedTable_def by (simp add: truthy_fillDefault defaultHeaders_def)
    have "truthyOpt (map_of (fillDefault (ascii ''rows'') (JArr [] []) ts) (ascii ''rows''))"
      by (simp add: truthy_fillDefault)
    then have rw: "truthyOpt (map_of (repairedTable ts) (ascii ''rows''))"
      unfolding repairedTable_def using key_rows_headers
      by (simp add: map_of_fillDefault_other)
    show ?thesis
      using hk [of "withProps ?t (repairedTable ts)"] tt hd rw
      by (auto simp: y getProp_propsOf [OF pw] getProp_propsOf [OF pt] update_conv' truthyOpt_def
          split: option.splits)
  qed
qed

lemma repairDefaults_fixpoint:
  assumes "repairDefaults x = Inr y"
  shows "repairDefaults y = Inr y"
proof -
  from repairDefaults_present [OF assms] obtain h t r hd where
    h: "getProp y (ascii ''hashtags'') = Inr (Some h)" "truthy h"
    and t: "getProp y (ascii ''comparisonTable'') = Inr (Some t)" "truthy t"
    and r: "getProp t (ascii ''rows'') = Inr (Some r)" "truthy r"
    and hd: "getProp t (ascii ''headers'') = Inr (Some hd)" "truthy hd"
    by blast
  from h obtain ps where ps: "propsOf y = Some ps" by (cases y) auto
  from r obtain ts where ts: "propsOf t = Some ts" by (cases t) auto
  have mh: "map_of ps (ascii ''hashtags'') = Some h"
    and mt: "map_of ps (ascii ''comparisonTable'') = Some t"
    using h t by (simp_all add: getProp_propsOf [OF ps])
  have mr: "map_of ts (ascii ''rows'') = Some r" and mhd: "map_of ts (ascii ''headers'') = Some hd"
    using r hd by (simp_all add: getProp_propsOf [OF ts])
  have f1: "fillDefault (ascii ''hashtags'') (JArr [] []) ps = ps"
    using mh h by (simp add: fillDefault_idem truthyOpt_def)
  have f2: "repairedTable ts = ts"
    using mr mhd r hd by (simp add: repairedTable_def fillDefault_idem truthyOpt_def)
  have "AList.update (ascii ''comparisonTable'') t ps = ps" using mt by (rule update_triv)
  then show ?thesis
    using mt t ts
    by (simp add: repairDefaults_eval [OF ps] truthyOpt_def f1 f2 withProps_same [OF ts]
        withProps_same [OF ps])
qed

lemma withId_withId: "withId now (withId now r i) i = withId now r i"
  by (simp add: withId_def update_triv update_conv')

lemma assignIds_assignIds: "assignIds now (assignIds now rs) = assignIds now rs"
  by (rule nth_equalityI) (simp_all add: length_assignIds nth_assignIds withId_withId)

lemma unwrap_array: "unwrap (JArr xs ps) = Some xs"
  by (simp add: unwrap_def)

lemma normalizeSearch_array: "normalizeSearch now (JArr xs ps) = assignIds now xs"
  by (simp add: normalizeSearch_def unwrap_array)

lemma assignIds_Nil: "assignIds now [] = []"
  by (simp add: assignIds_def)

lemma normalizeSearch_cases: "\<exists>rs. normalizeSearch now x = assignIds now rs"
proof (cases "unwrap x")
  case None
  then have "normalizeSearch now x = assignIds now []"
    by (simp add: normalizeSearch_def assignIds_Nil)
  then show ?thesis ..
next
  case (Some rs)
  then have "normalizeSearch now x = assignIds now rs" by (simp add: normalizeSearch_def)
  then show ?thesis ..
qed

lemma normalizeSearch_same_clock:
  "normalizeSearch now (JArr (normalizeSearch now x) []) = normalizeSearch now x"
proof -
  from normalizeSearch_cases [of now x] obtain rs
    where rs: "normalizeSearch now x = assignIds now rs" ..
  show ?thesis by (simp add: rs normalizeSearch_array assignIds_assignIds)
qed

lemma renormalize_length:
  "length (normalizeSearch now' (JArr (normalizeSearch now x) [])) = length (normalizeSearch now x)"
  by (simp add: normalizeSearch_array length_assignIds)

lemma renormalize_other_keys:
  assumes "i < length (normalizeSearch now x)" and "k \<noteq> ascii ''id''"
  shows "getProp (normalizeSearch now' (JArr (normalizeSearch now x) []) ! i) k
           = getProp (normalizeSearch now x ! i) k"
proof -
  from normalizeSearch_cases [of now x] obtain rs
    where rs: "normalizeSearch now x = assignIds now rs" ..
  with assms(1) have i: "i < length rs" by (simp add: length_assignIds)
  show ?thesis using i assms(2)
    by (simp add: rs normalizeSearch_array nth_assignIds length_assignIds withId_def update_conv')
qed

lemma renormalize_nth:
  assumes "i < length (normalizeSearch now x)"
  shows "normalizeSearch now' (JArr (normalizeSearch now x) []) ! i
           = withId now' (normalizeSearch now x ! i) i"
  using assms by (simp add: normalizeSearch_array nth_assignIds)

lemma renormalize_id:
  assumes "i < length (normalizeSearch now x)"
  shows "getProp (normalizeSearch now' (JArr (normalizeSearch now x) []) ! i) (ascii ''id'')
           = Inr (Some (JStr (resId now' i)))"
  by (simp add: renormalize_nth [OF assms] getProp_withId_id)

lemma normalizeSearch_id:
  assumes "i < length (normalizeSearch now x)"
  shows "getProp (normalizeSearch now x ! i) (ascii ''id'') = Inr (Some (JStr (resId now i)))"
proof -
  from normalizeSearch_cases [of now x] obtain rs
    where rs: "normalizeSearch now x = assignIds now rs" ..
  with assms have "i < length rs" by (simp add: length_assignIds)
  then show ?thesis by (simp add: rs nth_assignIds getProp_withId_id)
qed

lemma withId_agree: "now' i = now i \<Longrightarrow> withId now' (withId now r i) i = withId now r i"
  by (simp add: withId_def resId_def update_triv update_conv')

lemma renormalize_unchanged_iff:
  "normalizeSearch now' (JArr (normalizeSearch now x) []) = normalizeSearch now x
     \<longleftrightarrow> (\<forall>i<length (normalizeSearch now x). now' i = now i)"
proof
  assume e: "normalizeSearch now' (JArr (normalizeSearch now x) []) = normalizeSearch now x"
  show "\<forall>i<length (normalizeSearch now x). now' i = now i"
  proof (intro allI impI)
    fix i
    assume i: "i < length (normalizeSearch now x)"
    have "Inr (Some (JStr (resId now' i))) = (Inr (Some (JStr (resId now i))) :: error + json option)"
      using renormalize_id [OF i, of now'] normalizeSearch_id [OF i] e by simp
    then have "resId now' i = resId now i" by simp
    then show "now' i = now i" by (simp add: resId_clock)
  qed
next
  assume a: "\<forall>i<length (normalizeSearch now x). now' i = now i"
  from normalizeSearch_cases [of now x] obtain rs
    where rs: "normalizeSearch now x = assignIds now rs" ..
  have "assignIds now' (assignIds now rs) = assignIds now rs"
  proof (rule nth_equalityI)
    show "length (assignIds now' (assignIds now rs)) = length (assignIds now rs)"
      by (simp add: length_assignIds)
    fix i
    assume "i < length (assignIds now' (assignIds now rs))"
    then have i: "i < length rs" by (simp add: length_assignIds)
    then have "now' i = now i" using a by (simp add: rs length_assignIds)
    then show "assignIds now' (assignIds now rs) ! i = assignIds now rs ! i"
      using i by (simp add: nth_assignIds length_assignIds withId_agree)
  qed
  then show "normalizeSearch now' (JArr (normalizeSearch now x) []) = normalizeSearch now x"
    by (simp add: rs normalizeSearch_array)
qed

text \<open>
  Claim C8, as amended. Repairing a repaired post again returns it unchanged. Normalising
  a normalised result list again, under any clock, returns as many elements; the element at
  index \<open>i\<close> gets the identifier built from \<open>i\<close> and the new reading of the clock, and
  every other property as before. So the list comes back unchanged exactly when the clock
  reads, for every index of the list, what it read in the first pass; in particular under
  the same clock.
\<close>

theorem normalize_idempotent_up_to_clock:
  "(\<forall>x y. repairDefaults x = Inr y \<longrightarrow> repairDefaults y = Inr y)
   \<and> (\<forall>now x. normalizeSearch now (JArr (normalizeSearch now x) []) = normalizeSearch now x)
   \<and> (\<forall>now now' x.
        length (normalizeSearch now' (JArr (normalizeSearch now x) [])) = length (normalizeSearch now x)
        \<and> (\<forall>i<length (normalizeSearch now x).
              getProp (normalizeSearch now' (JArr (normalizeSearch now x) []) ! i) (ascii ''id'')
                = Inr (Some (JStr (resId now' i)))
              \<and> (\<forall>k. k \<noteq> ascii ''id'' \<longrightarrow>
                    getProp (normalizeSearch now' (JArr (normalizeSearch now x) []) ! i) k
                      = getProp (normalizeSearch now x ! i) k))
        \<and> (normalizeSearch now' (JArr (normalizeSearch now x) []) = normalizeSearch now x
              \<longleftrightarrow> (\<forall>i<length (normalizeSearch now x). now' i = now i)))"
proof (intro conjI allI impI)
  fix x y
  assume "repairDefaults x = Inr y"
  then show "repairDefaults y = Inr y" by (rule repairDefaults_fixpoint)
next
  fix now x
  show "normalizeSearch now (JArr (normalizeSearch now x) []) = normalizeSearch now x"
    by (rule normalizeSearch_same_clock)
next
  fix now now' :: "nat \<Rightarrow> int" and x
  show "length (normalizeSearch now' (JArr (normalizeSearch now x) [])) = length (normalizeSearch now x)"
    by (rule renormalize_length)
next
  fix now now' :: "nat \<Rightarrow> int" and x i
  assume "i < length (normalizeSearch now x)"
  then show "getProp (normalizeSearch now' (JArr (normalizeSearch now x) []) ! i) (ascii ''id'')
                = Inr (Some (JStr (resId now' i)))"
    by (rule renormalize_id)
next
  fix now now' :: "nat \<Rightarrow> int" and x i k
  assume "i < length (normalizeSearch now x)" "k \<noteq> ascii ''id''"
  then show "getProp (normalizeSearch now' (JArr (normalizeSearch now x) []) ! i) k
                      = getProp (normalizeSearch now x ! i) k"
    by (rule renormalize_other_keys)
next
  fix now now' :: "nat \<Rightarrow> int" and x
  show "normalizeSearch now' (JArr (normalizeSearch now x) []) = normalizeSearch now x
              \<longleftrightarrow> (\<forall>i<length (normalizeSearch now x). now' i = now i)"
    by (rule renormalize_unchanged_iff)
qed

theorem normalize_idempotent_counterexample:
  "normalizeSearch (\<lambda>i. 2000) (JArr (normalizeSearch (\<lambda>i. 1000) (JArr [JObj []] [])) [])
     \<noteq> normalizeSearch (\<lambda>i. 1000) (JArr [JObj []] [])"
proof
  assume a: "normalizeSearch (\<lambda>i. 2000) (JArr (normalizeSearch (\<lambda>i. 1000) (JArr [JObj []] [])) [])
     = normalizeSearch (\<lambda>i. 1000) (JArr [JObj []] [])"
  have "resId (\<lambda>i. 2000) 0 = resId (\<lambda>i. 1000) 0"
    using a by (simp add: normalizeSearch_array assignIds_def withId_def)
  then have "decInt 2000 = decInt 1000" by (simp add: resId_def)
  then have "dec 2000 = dec 1000" by (simp add: decInt_def)
  then have "(2000::nat) = 1000" by (rule dec_inj)
  then show False by simp
qed

lemma propsOf_JObj: "propsOf (JObj ps) = Some ps"
  by simp

text \<open>
  Claim C5. For a parsed object: a missing \<^verbatim>\<open>hashtags\<close> is the empty array in whatever is
  returned; a missing \<^verbatim>\<open>comparisonTable\<close> is returned as the default table with its title,
  its three headers and no rows; in a table object, a missing \<^verbatim>\<open>rows\<close> is returned as the
  empty array and a missing \<^verbatim>\<open>headers\<close> as the three default headers, each whatever the
  other is. Whatever value is returned has all four properties.
\<close>

theorem content_repair_defaults:
  "(map_of ps (ascii ''hashtags'') = None \<longrightarrow>
      (\<forall>y. repairDefaults (JObj ps) = Inr y \<longrightarrow>
           getProp y (ascii ''hashtags'') = Inr (Some (JArr [] []))))
   \<and> (map_of ps (ascii ''comparisonTable'') = None \<longrightarrow>
      (\<exists>y. repairDefaults (JObj ps) = Inr y
          \<and> getProp y (ascii ''comparisonTable'')
              = Inr (Some (JObj [(ascii ''title'', JStr [0x8CC7, 0x8A0A, 0x6574, 0x7406]),
                                 (ascii ''headers'',
                                    JArr [JStr [0x9805, 0x76EE], JStr [0x5167, 0x5BB9],
                                          JStr [0x5099, 0x8A3B]] []),
                                 (ascii ''rows'', JArr [] [])]))))
   \<and> (\<forall>ts. map_of ps (ascii ''comparisonTable'') = Some (JObj ts) \<longrightarrow>
      (\<exists>y t. repairDefaults (JObj ps) = Inr y
          \<and> getProp y (ascii ''comparisonTable'') = Inr (Some t)
          \<and> (map_of ts (ascii ''rows'') = None \<longrightarrow>
                getProp t (ascii ''rows'') = Inr (Some (JArr [] [])))
          \<and> (map_of ts (ascii ''headers'') = None \<longrightarrow>
                getProp t (ascii ''headers'')
                  = Inr (Some (JArr [JStr [0x9805, 0x76EE], JStr [0x41], JStr [0x42]] [])))))
   \<and> (\<forall>x y. repairDefaults x = Inr y \<longrightarrow>
      (\<exists>h t r hd. getProp y (ascii ''hashtags'') = Inr (Some h)
          \<and> getProp y (ascii ''comparisonTable'') = Inr (Some t)
          \<and> getProp t (ascii ''rows'') = Inr (Some r)
          \<and> getProp t (ascii ''headers'') = Inr (Some hd)))"
proof (intro conjI allI impI)
  fix y
  assume m: "map_of ps (ascii ''hashtags'') = None" and r: "repairDefaults (JObj ps) = Inr y"
  have f: "map_of (fillDefault (ascii ''hashtags'') (JArr [] []) ps) (ascii ''hashtags'')
             = Some (JArr [] [])"
    using m by (simp add: map_of_fillDefault_same truthyOpt_def)
  show "getProp y (ascii ''hashtags'') = Inr (Some (JArr [] []))"
    using r f key_hashtags_table
    by (auto simp: repairDefaults_eval [OF propsOf_JObj] update_conv'
        split: if_splits option.splits)
next
  assume m: "map_of ps (ascii ''comparisonTable'') = None"
  then have "repairDefaults (JObj ps)
      = Inr (JObj (AList.update (ascii ''comparisonTable'') defaultTable
               (fillDefault (ascii ''hashtags'') (JArr [] []) ps)))"
    by (simp add: repairDefaults_eval [OF propsOf_JObj] truthyOpt_def)
  then show "\<exists>y. repairDefaults (JObj ps) = Inr y
          \<and> getProp y (ascii ''comparisonTable'')
              = Inr (Some (JObj [(ascii ''title'', JStr [0x8CC7, 0x8A0A, 0x6574, 0x7406]),
                                 (ascii ''headers'',
                                    JArr [JStr [0x9805, 0x76EE], JStr [0x5167, 0x5BB9],
                                          JStr [0x5099, 0x8A3B]] []),
                                 (ascii ''rows'', JArr [] [])]))"
    by (simp add: update_conv' defaultTable_def)
next
  fix ts
  assume m: "map_of ps (ascii ''comparisonTable'') = Some (JObj ts)"
  then have e: "repairDefaults (JObj ps)
      = Inr (JObj (AList.update (ascii ''comparisonTable'') (JObj (repairedTable ts))
               (fillDefault (ascii ''hashtags'') (JArr [] []) ps)))"
    by (simp add: repairDefaults_eval [OF propsOf_JObj] truthyOpt_def)
  have r: "map_of ts (ascii ''rows'') = None \<longrightarrow>
             map_of (repairedTable ts) (ascii ''rows'') = Some (JArr [] [])"
    using key_rows_headers
    by (simp add: repairedTable_def map_of_fillDefault_other map_of_fillDefault_same truthyOpt_def)
  have h: "map_of ts (ascii ''headers'') = None \<longrightarrow>
             map_of (repairedTable ts) (ascii ''headers'')
               = Some (JArr [JStr [0x9805, 0x76EE], JStr [0x41], JStr [0x42]] [])"
    using key_rows_headers [symmetric]
    by (simp add: repairedTable_def map_of_fillDefault_other map_of_fillDefault_same truthyOpt_def
        defaultHeaders_def ascii_def)
  show "\<exists>y t. repairDefaults (JObj ps) = Inr y
          \<and> getProp y (ascii ''comparisonTable'') = Inr (Some t)
          \<and> (map_of ts (ascii ''rows'') = None \<longrightarrow>
                getProp t (ascii ''rows'') = Inr (Some (JArr [] [])))
          \<and> (map_of ts (ascii ''headers'') = None \<longrightarrow>
                getProp t (ascii ''headers'')
                  = Inr (Some (JArr [JStr [0x9805, 0x76EE], JStr [0x41], JStr [0x42]] [])))"
    using r h by (simp add: e update_conv')
next
  fix x y
  assume "repairDefaults x = Inr y"
  from repairDefaults_present [OF this]
  show "\<exists>h t r hd. getProp y (ascii ''hashtags'') = Inr (Some h)
          \<and> getProp y (ascii ''comparisonTable'') = Inr (Some t)
          \<and> getProp t (ascii ''rows'') = Inr (Some r)
          \<and> getProp t (ascii ''headers'') = Inr (Some hd)"
    by blast
qed

lemma repairDefaults_empty_object:
  "repairDefaults (JObj [])
     = Inr (JObj [(ascii ''hashtags'', JArr [] []), (ascii ''comparisonTable'', defaultTable)])"
  by (simp add: repairDefaults_eval [OF propsOf_JObj] truthyOpt_def fillDefault_def
      key_hashtags_table)

theorem content_repair_defaults_witness:
  "map_of [(ascii ''headline'', JStr (ascii ''H''))] (ascii ''comparisonTable'') = None
   \<and> map_of [(ascii ''headline'', JStr (ascii ''H''))] (ascii ''hashtags'') = None
   \<and> (\<exists>y. repairDefaults (JObj [(ascii ''headline'', JStr (ascii ''H''))]) = Inr y
          \<and> getProp y (ascii ''hashtags'') = Inr (Some (JArr [] []))
          \<and> getProp y (ascii ''comparisonTable'')
              = Inr (Some (JObj [(ascii ''title'', JStr [0x8CC7, 0x8A0A, 0x6574, 0x7406]),
                                 (ascii ''headers'',
                                    JArr [JStr [0x9805, 0x76EE], JStr [0x5167, 0x5BB9],
                                          JStr [0x5099, 0x8A3B]] []),
                                 (ascii ''rows'', JArr [] [])])))"
proof -
  have a: "map_of [(ascii ''headline'', JStr (ascii ''H''))] (ascii ''comparisonTable'') = None"
    and b: "map_of [(ascii ''headline'', JStr (ascii ''H''))] (ascii ''hashtags'') = None"
    by (simp_all add: ascii_def)
  show ?thesis
    using a b content_repair_defaults [of "[(ascii ''headline'', JStr (ascii ''H''))]"]
    by blast
qed

theorem normalize_idempotent_up_to_clock_witness:
  "repairDefaults (JObj [])
     = Inr (JObj [(ascii ''hashtags'', JArr [] []), (ascii ''comparisonTable'', defaultTable)])
   \<and> repairDefaults (JObj [(ascii ''hashtags'', JArr [] []), (ascii ''comparisonTable'', defaultTable)])
     = Inr (JObj [(ascii ''hashtags'', JArr [] []), (ascii ''comparisonTable'', defaultTable)])
   \<and> normalizeSearch (\<lambda>i. 1000)
        (JArr [JObj [(ascii ''title'', JStr (ascii ''T'')), (ascii ''id'', JStr (ascii ''b1''))]] [])
       = [JObj [(ascii ''title'', JStr (ascii ''T'')), (ascii ''id'', JStr (ascii ''res-0-1000''))]]
   \<and> 0 < length (normalizeSearch (\<lambda>i. 1000)
        (JArr [JObj [(ascii ''title'', JStr (ascii ''T'')), (ascii ''id'', JStr (ascii ''b1''))]] []))
   \<and> ascii ''title'' \<noteq> ascii ''id''
   \<and> getProp (normalizeSearch (\<lambda>i. 2000) (JArr (normalizeSearch (\<lambda>i. 1000)
          (JArr [JObj [(ascii ''title'', JStr (ascii ''T'')), (ascii ''id'', JStr (ascii ''b1''))]] []))
          []) ! 0) (ascii ''id'')
       = Inr (Some (JStr (ascii ''res-0-2000'')))
   \<and> getProp (normalizeSearch (\<lambda>i. 2000) (JArr (normalizeSearch (\<lambda>i. 1000)
          (JArr [JObj [(ascii ''title'', JStr (ascii ''T'')), (ascii ''id'', JStr (ascii ''b1''))]] []))
          []) ! 0) (ascii ''title'')
       = Inr (Some (JStr (ascii ''T'')))
   \<and> normalizeSearch (\<lambda>i. 2000) (JArr (normalizeSearch (\<lambda>i. 1000)
          (JArr [JObj [(ascii ''title'', JStr (ascii ''T'')), (ascii ''id'', JStr (ascii ''b1''))]] []))
          [])
       \<noteq> normalizeSearch (\<lambda>i. 1000)
          (JArr [JObj [(ascii ''title'', JStr (ascii ''T'')), (ascii ''id'', JStr (ascii ''b1''))]] [])"
proof -
  let ?x = "JArr [JObj [(ascii ''title'', JStr (ascii ''T'')), (ascii ''id'', JStr (ascii ''b1''))]] []"
  let ?n = "normalizeSearch (\<lambda>i. 1000) ?x"
  let ?r = "normalizeSearch (\<lambda>i. 2000) (JArr ?n [])"
  note th = normalize_idempotent_up_to_clock
  have d1: "dec 1000 = ascii ''1000''"
    by (simp add: dec.simps [of 1000] dec.simps [of 100] dec.simps [of 10] dec.simps [of "Suc 0"] ascii_def)
  have d2: "dec 2000 = ascii ''2000''"
    by (simp add: dec.simps [of 2000] dec.simps [of 200] dec.simps [of 20] dec.simps [of 2] ascii_def)
  have n: "?n = [JObj [(ascii ''title'', JStr (ascii ''T'')), (ascii ''id'', JStr (ascii ''res-0-1000''))]]"
    by (simp add: normalizeSearch_array assignIds_def withId_def resId_def decInt_def d1
        dec.simps [of 0]) (simp add: ascii_def)
  have l: "0 < length ?n" by (simp add: normalizeSearch_array length_assignIds)
  have k: "ascii ''title'' \<noteq> ascii ''id''" by (simp add: ascii_def)
  have p: "repairDefaults (JObj [(ascii ''hashtags'', JArr [] []), (ascii ''comparisonTable'', defaultTable)])
     = Inr (JObj [(ascii ''hashtags'', JArr [] []), (ascii ''comparisonTable'', defaultTable)])"
    using th [THEN conjunct1, rule_format, OF repairDefaults_empty_object] .
  note s = th [THEN conjunct2, THEN conjunct2, rule_format, of "\<lambda>i. 2000" "\<lambda>i. 1000" ?x]
  have "getProp (?r ! 0) (ascii ''id'') = Inr (Some (JStr (resId (\<lambda>i. 2000) 0)))"
    using s [THEN conjunct2, THEN conjunct1, rule_format, OF l, THEN conjunct1] .
  then have i: "getProp (?r ! 0) (ascii ''id'') = Inr (Some (JStr (ascii ''res-0-2000'')))"
    by (simp add: resId_def decInt_def d2 dec.simps [of 0]) (simp add: ascii_def)
  have "getProp (?r ! 0) (ascii ''title'') = getProp (?n ! 0) (ascii ''title'')"
    using s [THEN conjunct2, THEN conjunct1, rule_format, OF l, THEN conjunct2, rule_format, OF k] .
  then have o: "getProp (?r ! 0) (ascii ''title'') = Inr (Some (JStr (ascii ''T'')))"
    by (simp add: n)
  have u: "?r \<noteq> ?n"
  proof
    assume "?r = ?n"
    then have "\<forall>i<length ?n. (2000 :: int) = 1000"
      using s [THEN conjunct2, THEN conjunct2] by simp
    with l show False by auto
  qed
  show ?thesis
    by (intro conjI) (rule repairDefaults_empty_object p n l k i o u)+
qed

section \<open>The illustration stage\<close>

lemma scanParts_no_inline: "\<forall>p\<in>set ps. inlineData p = None \<Longrightarrow> scanParts ps = Some []"
  by (induction ps) simp_all

lemma generateCuteImage_with_key:
  assumes "getAiClient apiKey = Inr ()"
  shows "generateCuteImage apiKey backend topic summary =
           (case backend topic summary of
              Rejects \<Rightarrow> Inr placeholder
            | Resolves r \<Rightarrow> (case extractImage r of Inl e \<Rightarrow> Inr placeholder | Inr url \<Rightarrow> Inr url))"
  using assms by (simp add: generateCuteImage_def)

lemma imageUrlOf_empty: "imageUrlOf (Some []) = Inl NoImageGenerated"
  by (simp add: imageUrlOf_def)

text \<open>
  Claim C3, as amended. Once the client exists, that is with an API key set,
  \<^verbatim>\<open>generateCuteImage\<close> returns a string however the backend call settles, and it returns
  the placeholder when the call rejects, when the response has no candidates or an empty
  list of them, when no part carries inline data, and for every other error of the block.
  Without a key the function throws before the block, as the counterexample shows.
\<close>

theorem illustration_degrades_to_placeholder:
  assumes "getAiClient apiKey = Inr ()"
  shows "(\<exists>url. generateCuteImage apiKey backend topic summary = Inr url)
     \<and> (backend topic summary = Rejects \<longrightarrow>
          generateCuteImage apiKey backend topic summary = Inr placeholder)
     \<and> (\<forall>r. backend topic summary = Resolves r \<longrightarrow>
            (candidates r = None \<or> candidates r = Some []) \<longrightarrow>
          generateCuteImage apiKey backend topic summary = Inr placeholder)
     \<and> (\<forall>r c cs ct ps. backend topic summary = Resolves r \<longrightarrow>
            candidates r = Some (c # cs) \<longrightarrow> content c = Some ct \<longrightarrow> parts ct = Some ps \<longrightarrow>
            (\<forall>p\<in>set ps. inlineData p = None) \<longrightarrow>
          generateCuteImage apiKey backend topic summary = Inr placeholder)
     \<and> (\<forall>r e. backend topic summary = Resolves r \<longrightarrow> extractImage r = Inl e \<longrightarrow>
          generateCuteImage apiKey backend topic summary = Inr placeholder)"
proof (intro conjI allI impI)
  show "\<exists>url. generateCuteImage apiKey backend topic summary = Inr url"
    by (simp add: generateCuteImage_with_key [OF assms] split: outcome.split sum.split)
next
  assume "backend topic summary = Rejects"
  then show "generateCuteImage apiKey backend topic summary = Inr placeholder"
    by (simp add: generateCuteImage_with_key [OF assms])
next
  fix r
  assume "backend topic summary = Resolves r" "candidates r = None \<or> candidates r = Some []"
  then show "generateCuteImage apiKey backend topic summary = Inr placeholder"
    by (auto simp: generateCuteImage_with_key [OF assms] extractImage_def imageUrlOf_empty)
next
  fix r c cs ct ps
  assume "backend topic summary = Resolves r" "candidates r = Some (c # cs)"
    "content c = Some ct" "parts ct = Some ps" "\<forall>p\<in>set ps. inlineData p = None"
  then show "generateCuteImage apiKey backend topic summary = Inr placeholder"
    by (simp add: generateCuteImage_with_key [OF assms] extractImage_def imageUrlOf_empty
        scanParts_no_inline)
next
  fix r e
  assume "backend topic summary = Resolves r" "extractImage r = Inl e"
  then show "generateCuteImage apiKey backend topic summary = Inr placeholder"
    by (simp add: generateCuteImage_with_key [OF assms])
qed

theorem illustration_degrades_to_placeholder_witness:
  "getAiClient (Some (ascii ''key'')) = Inr ()
   \<and> generateCuteImage (Some (ascii ''key'')) (\<lambda>t s. Rejects) (ascii ''T'') (ascii ''S'')
       = Inr placeholder
   \<and> generateCuteImage (Some (ascii ''key''))
        (\<lambda>t s. Resolves (Response (Some [Candidate (Some (Content (Some [Part None])))])))
        (ascii ''T'') (ascii ''S'')
       = Inr placeholder"
proof -
  have k: "getAiClient (Some (ascii ''key'')) = Inr ()" by (simp add: getAiClient_def ascii_def)
  have a: "generateCuteImage (Some (ascii ''key'')) (\<lambda>t s. Rejects) (ascii ''T'') (ascii ''S'')
       = Inr placeholder"
    using illustration_degrades_to_placeholder [OF k, of "\<lambda>t s. Rejects" "ascii ''T''" "ascii ''S''"]
    by simp
  have b: "generateCuteImage (Some (ascii ''key''))
        (\<lambda>t s. Resolves (Response (Some [Candidate (Some (Content (Some [Part None])))])))
        (ascii ''T'') (ascii ''S'')
       = Inr placeholder"
    using illustration_degrades_to_placeholder [OF k,
        of "\<lambda>t s. Resolves (Response (Some [Candidate (Some (Content (Some [Part None])))]))"
           "ascii ''T''" "ascii ''S''"]
    by simp
  from k a b show ?thesis by blast
qed

theorem illustration_missing_key_counterexample:
  "generateCuteImage None (\<lambda>t s. Rejects) (ascii ''T'') (ascii ''S'') = Inl MissingApiKey"
  by (simp add: generateCuteImage_def getAiClient_def)

section \<open>The copied text\<close>

lemma tableText_no_rows:
  "tableText \<lparr>headline = h, caption = c, hashtags = tags,
              comparisonTable = Some \<lparr>title = ttl, headers = hs, rows = Some []\<rparr>\<rparr> = []"
  by (simp add: tableText_def rowsOf_def orElseArray_def)

text \<open>
  Claim C2, as amended. For headline H, caption C, hashtags a and b and a table without
  rows, whatever its title and headers, no table block is produced and the copied text is
  H, a blank line, C, three blank lines and \<^verbatim>\<open>#a #b\<close>: the empty table text still
  occupies its own line between the two blank lines around it.
\<close>

theorem copy_caption_empty_table:
  "tableText \<lparr>headline = Some (ascii ''H''), caption = Some (ascii ''C''),
              hashtags = Some [ascii ''a'', ascii ''b''],
              comparisonTable = Some \<lparr>title = ttl, headers = hs, rows = Some []\<rparr>\<rparr> = []
   \<and> handleCopyCaption \<lparr>headline = Some (ascii ''H''), caption = Some (ascii ''C''),
              hashtags = Some [ascii ''a'', ascii ''b''],
              comparisonTable = Some \<lparr>title = ttl, headers = hs, rows = Some []\<rparr>\<rparr>
       = ascii ''H\<newline>\<newline>C\<newline>\<newline>\<newline>\<newline>#a #b''"
  by (simp add: handleCopyCaption_def tableText_no_rows)
    (simp add: ascii_def orElse_def orElseArray_def join_def trim_def isWhiteSpace_def)

theorem copy_caption_counterexample:
  "handleCopyCaption \<lparr>headline = Some (ascii ''H''), caption = Some (ascii ''C''),
              hashtags = Some [ascii ''a'', ascii ''b''],
              comparisonTable = Some \<lparr>title = Some (ascii ''T''),
                headers = Some [ascii ''x'', ascii ''y'', ascii ''z''], rows = Some []\<rparr>\<rparr>
       \<noteq> ascii ''H\<newline>\<newline>C\<newline>\<newline>\<newline>#a #b''"
  by (simp add: handleCopyCaption_def tableText_no_rows)
    (simp add: ascii_def orElse_def orElseArray_def join_def trim_def isWhiteSpace_def)

section \<open>Text wrapping\<close>










section \<open>Row placement in the table image\<close>

lemma dividerYs_Nil: "dividerYs [] = []"
  by (simp add: dividerYs_def)

lemma dividerYs_Cons:
  "dividerYs (c # cs) = (case c of MoveTo x y \<Rightarrow> [y] | _ \<Rightarrow> []) @ dividerYs cs"
  by (simp add: dividerYs_def)

lemma dividerYs_append: "dividerYs (xs @ ys) = dividerYs xs @ dividerYs ys"
  by (simp add: dividerYs_def)

lemma dividerYs_concat: "dividerYs (concat xss) = concat (map dividerYs xss)"
  by (induction xss) (simp_all add: dividerYs_append dividerYs_Nil)

lemma dividerYs_wrapLoop: "dividerYs (wrapLoop widthOf x maxWidth lineHeight n ws line y) = []"
  by (induction ws arbitrary: n line y) (simp_all add: dividerYs_Cons dividerYs_Nil Let_def)

lemma dividerYs_wrapText: "dividerYs (wrapText widthOf s x y maxWidth lineHeight) = []"
  by (simp add: wrapText_def dividerYs_wrapLoop)

lemma dividerYs_drawRow: "dividerYs (drawRow measureText row i) = [yPos i - 40]"
  by (simp add: drawRow_def dividerYs_append dividerYs_wrapText dividerYs_Cons dividerYs_Nil)

lemma dividerYs_drawRows:
  "dividerYs (drawRows measureText rs) = map (\<lambda>i. yPos i - 40) [0..<length rs]"
proof -
  have "dividerYs (drawRows measureText rs)
          = concat (map (\<lambda>p. [yPos (snd p) - 40]) (zip rs [0..<length rs]))"
    by (simp add: drawRows_def dividerYs_concat dividerYs_drawRow o_def split_def)
  also have "\<dots> = map (\<lambda>p. yPos (snd p) - 40) (zip rs [0..<length rs])"
    by (simp add: concat_map_singleton)
  also have "\<dots> = map (\<lambda>i. yPos i - 40) (map snd (zip rs [0..<length rs]))"
    by (simp only: map_map o_def)
  also have "\<dots> = map (\<lambda>i. yPos i - 40) [0..<length rs]"
    by (simp add: map_snd_zip)
  finally show ?thesis .
qed

lemma dividerYs_generateTableImage:
  "dividerYs (generateTableImage measureText c)
     = map (\<lambda>i. yPos i - 40) [0..<length (rowsOf (comparisonTable c))]"
  by (simp add: generateTableImage_def Let_def dividerYs_append dividerYs_drawRows
      dividerYs_Cons dividerYs_Nil)

lemma upt_10: "[0..<10] = [0, 1, 2, 3, 4, 5, 6, 7, 8, 9]"
  by (simp add: upt_rec)

text \<open>
  Claim C1, at a table of ten rows. The height computed at line 466 is 780 / 11, yet the
  divider lines of the rows are drawn 140 apart from 280 on, whatever the text measure:
  the ten rows span 1400 rather than the 780 left between header and footer, and only six
  of the dividers lie on the canvas.
\<close>

theorem table_rows_fixed_pitch:
  "rowHeight (rowsOf (comparisonTable (tenRows row))) = 780 / 11
   \<and> dividerYs (generateTableImage measureText (tenRows row))
       = [280, 420, 560, 700, 840, 980, 1120, 1260, 1400, 1540]
   \<and> filter (\<lambda>y. y < canvasSize) (dividerYs (generateTableImage measureText (tenRows row)))
       = [280, 420, 560, 700, 840, 980]"
  by (simp add: dividerYs_generateTableImage)
    (simp add: tenRows_def rowsOf_def orElseArray_def rowHeight_def canvasSize_def startY_def
      yPos_def upt_10)

section \<open>The pipeline state machine\<close>

lemma loadingState_fire_settles:
  "loadingState (ui (fire c (SearchSettles r))) \<in> {COMPLETE, ERROR}"
  "loadingState (ui (fire c (ContentSettles a r'))) \<in> {GENERATING_IMAGE, ERROR}"
  "loadingState (ui (fire c (ImageSettles k r''))) \<in> {COMPLETE, ERROR}"
  by (simp_all add: handleSearch_settled_def handleGenerate_content_def handleGenerate_image_def
      handleGenerate_failed_def Let_def split: sum.split)

lemma searching_after_fire:
  assumes "loadingState (ui c) = SEARCHING \<longrightarrow> results (ui c) = []"
    and "loadingState (ui (fire c e)) = SEARCHING"
  shows "results (ui (fire c e)) = []"
proof (cases e)
  case (SubmitSearch topic startDate endDate)
  then show ?thesis by (simp add: handleSearch_begin_def)
next
  case (ClickGenerate r)
  then show ?thesis using assms(2) by (simp add: handleGenerate_begin_def)
next
  case ClickReset
  then show ?thesis by (simp add: handleReset_def)
next
  case ClickClose
  then show ?thesis using assms by (simp add: closePreview_def)
next
  case (SearchSettles r)
  then show ?thesis using assms(2) loadingState_fire_settles(1) [of c r] by auto
next
  case (ContentSettles a r)
  then show ?thesis using assms(2) loadingState_fire_settles(2) [of c a r] by auto
next
  case (ImageSettles k r)
  then show ?thesis using assms(2) loadingState_fire_settles(3) [of c k r] by auto
qed

lemma searching_no_results:
  "reachable c \<Longrightarrow> loadingState (ui c) = SEARCHING \<longrightarrow> results (ui c) = []"
proof (induction rule: reachable.induct)
  case reach_start
  then show ?case by (simp add: initialConfig_def initialState_def)
next
  case (reach_step c e)
  then show ?case using searching_after_fire [of c e] by blast
qed

lemma active_fire:
  assumes "enabled c e"
  shows "loadingState (ui (fire c e)) = loadingState (ui c)
       \<or> loadingState (ui (fire c e)) \<in> {GENERATING_IMAGE, COMPLETE, ERROR}
       \<or> e = ClickReset \<and> loadingState (ui (fire c e)) = IDLE
       \<or> (\<exists>topic startDate endDate. e = SubmitSearch topic startDate endDate)
       \<or> (\<exists>r. e = ClickGenerate r)"
proof (cases e)
  case ClickReset
  then show ?thesis by (simp add: handleReset_def)
next
  case ClickClose
  then show ?thesis by (simp add: closePreview_def)
next
  case (SearchSettles r)
  then show ?thesis using loadingState_fire_settles(1) [of c r] by auto
next
  case (ContentSettles a r)
  then show ?thesis using loadingState_fire_settles(2) [of c a r] by auto
next
  case (ImageSettles k r)
  then show ?thesis using loadingState_fire_settles(3) [of c k r] by auto
qed simp_all

text \<open>
  Claim C9, as amended. In every reachable configuration whose state is \<^verbatim>\<open>SEARCHING\<close>,
  \<^verbatim>\<open>GENERATING_POST\<close> or \<^verbatim>\<open>GENERATING_IMAGE\<close> the page offers neither a search nor a
  generate trigger; an event that can occur leaves the state as it is, or is the settling
  of a call and moves it to \<^verbatim>\<open>GENERATING_IMAGE\<close>, \<^verbatim>\<open>COMPLETE\<close> or \<^verbatim>\<open>ERROR\<close>, or is the
  reset and moves it to \<^verbatim>\<open>IDLE\<close>. The two handlers do not look at the state: run there,
  they would set \<^verbatim>\<open>SEARCHING\<close> and \<^verbatim>\<open>GENERATING_POST\<close>.
\<close>

theorem active_state_offers_no_trigger:
  assumes "reachable c" and "active (loadingState (ui c))"
  shows "(\<forall>topic startDate endDate. \<not> enabled c (SubmitSearch topic startDate endDate))
     \<and> (\<forall>r. \<not> enabled c (ClickGenerate r))
     \<and> (\<forall>e. enabled c e \<longrightarrow>
            loadingState (ui (fire c e)) = loadingState (ui c)
          \<or> loadingState (ui (fire c e)) \<in> {GENERATING_IMAGE, COMPLETE, ERROR}
          \<or> e = ClickReset \<and> loadingState (ui (fire c e)) = IDLE)
     \<and> loadingState (handleSearch_begin (ui c)) = SEARCHING
     \<and> loadingState (handleGenerate_begin (ui c)) = GENERATING_POST"
proof (intro conjI allI impI)
  fix topic startDate endDate
  show "\<not> enabled c (SubmitSearch topic startDate endDate)"
    using assms(2) by (auto simp: active_def isLoading_def)
next
  fix r
  show g: "\<not> enabled c (ClickGenerate r)"
  proof (cases "loadingState (ui c) = SEARCHING")
    case True
    then have "results (ui c) = []" using searching_no_results [OF assms(1)] by simp
    then show ?thesis by simp
  next
    case False
    then show ?thesis using assms(2) by (auto simp: active_def isGenerating_def)
  qed
next
  fix e
  assume e: "enabled c e"
  have s: "\<And>topic startDate endDate. \<not> enabled c (SubmitSearch topic startDate endDate)"
    using assms(2) by (auto simp: active_def isLoading_def)
  have g: "\<And>r. \<not> enabled c (ClickGenerate r)"
  proof -
    fix r
    show "\<not> enabled c (ClickGenerate r)"
    proof (cases "loadingState (ui c) = SEARCHING")
      case True
      then have "results (ui c) = []" using searching_no_results [OF assms(1)] by simp
      then show ?thesis by simp
    next
      case False
      then show ?thesis using assms(2) by (auto simp: active_def isGenerating_def)
    qed
  qed
  from active_fire [OF e] s g e
  show "loadingState (ui (fire c e)) = loadingState (ui c)
          \<or> loadingState (ui (fire c e)) \<in> {GENERATING_IMAGE, COMPLETE, ERROR}
          \<or> e = ClickReset \<and> loadingState (ui (fire c e)) = IDLE"
    by blast
next
  show "loadingState (handleSearch_begin (ui c)) = SEARCHING"
    by (simp add: handleSearch_begin_def)
  show "loadingState (handleGenerate_begin (ui c)) = GENERATING_POST"
    by (simp add: handleGenerate_begin_def)
qed

lemma reachable_searching:
  "reachable (fire initialConfig (SubmitSearch [] (ascii ''2024-01-01'') (ascii ''2024-02-01'')))"
proof (rule reachable.reach_step)
  show "reachable initialConfig" by (rule reachable.reach_start)
  show "enabled initialConfig (SubmitSearch [] (ascii ''2024-01-01'') (ascii ''2024-02-01''))"
    by (simp add: initialConfig_def initialState_def isLoading_def ascii_def)
qed

lemma searching_state:
  "loadingState (ui (fire initialConfig (SubmitSearch [] (ascii ''2024-01-01'') (ascii ''2024-02-01''))))
     = SEARCHING"
  by (simp add: handleSearch_begin_def)

theorem active_state_offers_no_trigger_witness:
  "reachable (fire initialConfig (SubmitSearch [] (ascii ''2024-01-01'') (ascii ''2024-02-01'')))
   \<and> active (loadingState (ui (fire initialConfig
         (SubmitSearch [] (ascii ''2024-01-01'') (ascii ''2024-02-01'')))))
   \<and> \<not> enabled (fire initialConfig (SubmitSearch [] (ascii ''2024-01-01'') (ascii ''2024-02-01'')))
         (ClickGenerate JNull)
   \<and> \<not> enabled (fire initialConfig (SubmitSearch [] (ascii ''2024-01-01'') (ascii ''2024-02-01'')))
         (SubmitSearch [] (ascii ''2024-01-01'') (ascii ''2024-02-01''))
   \<and> enabled (fire initialConfig (SubmitSearch [] (ascii ''2024-01-01'') (ascii ''2024-02-01'')))
         (SearchSettles (Inr []))
   \<and> loadingState (ui (fire (fire initialConfig
         (SubmitSearch [] (ascii ''2024-01-01'') (ascii ''2024-02-01''))) (SearchSettles (Inr []))))
       = COMPLETE"
proof -
  have a: "active (loadingState (ui (fire initialConfig
         (SubmitSearch [] (ascii ''2024-01-01'') (ascii ''2024-02-01'')))))"
    by (simp only: searching_state active_def) simp
  have e: "enabled (fire initialConfig (SubmitSearch [] (ascii ''2024-01-01'') (ascii ''2024-02-01'')))
         (SearchSettles (Inr []))"
    by simp
  have c: "loadingState (ui (fire (fire initialConfig
         (SubmitSearch [] (ascii ''2024-01-01'') (ascii ''2024-02-01''))) (SearchSettles (Inr []))))
       = COMPLETE"
    by (simp add: handleSearch_settled_def)
  note t = active_state_offers_no_trigger [OF reachable_searching a]
  have s: "\<not> enabled (fire initialConfig (SubmitSearch [] (ascii ''2024-01-01'') (ascii ''2024-02-01'')))
         (SubmitSearch [] (ascii ''2024-01-01'') (ascii ''2024-02-01''))"
    using t [THEN conjunct1] by (elim allE)
  have g: "\<not> enabled (fire initialConfig (SubmitSearch [] (ascii ''2024-01-01'') (ascii ''2024-02-01'')))
         (ClickGenerate JNull)"
    using t [THEN conjunct2, THEN conjunct1] by (elim allE)
  show ?thesis
    by (intro conjI) (rule reachable_searching a g s e c)+
qed

theorem active_state_counterexample:
  "reachable (fire initialConfig (SubmitSearch [] (ascii ''2024-01-01'') (ascii ''2024-02-01'')))
   \<and> loadingState (ui (fire initialConfig
         (SubmitSearch [] (ascii ''2024-01-01'') (ascii ''2024-02-01'')))) = SEARCHING
   \<and> enabled (fire initialConfig (SubmitSearch [] (ascii ''2024-01-01'') (ascii ''2024-02-01'')))
         ClickReset
   \<and> loadingState (ui (fire (fire initialConfig
         (SubmitSearch [] (ascii ''2024-01-01'') (ascii ''2024-02-01''))) ClickReset)) = IDLE
   \<and> loadingState (handleGenerate_begin (ui (fire initialConfig
         (SubmitSearch [] (ascii ''2024-01-01'') (ascii ''2024-02-01''))))) = GENERATING_POST"
  using reachable_searching searching_state
  by (simp add: handleReset_def handleGenerate_begin_def)

end
